theory Spec2Isabelle
  imports Complex_Main "HOL-Library.Multiset"
begin

section \<open>The gesture controller of src/components/GestureController.tsx\<close>

text \<open>
  The component keeps its state in React refs and reports through callbacks and state
  setters. The model passes the refs as a record and returns, with the updated record,
  the list of calls the cycle made, in the order the source makes them.
  Coordinates are JavaScript numbers, that is IEEE-754 binary64 values. The detector
  emits finite values: a landmark coordinate is the real number the double denotes. What
  the cycle computes from them is a \<open>number\<close>: a finite double (again the real it
  denotes; the two zeros are not told apart), an infinity or NaN, and every addition and
  division of the source rounds its exact result to the nearest double, ties to even.
  The frame counters are naturals. Calls of console.log are left out; console.error is
  kept.
\<close>

subsection \<open>Data\<close>

datatype TreeMode = FORMED | CHAOS

datatype NormalizedLandmark = Landmark (landmark_x: real) (landmark_y: real)

datatype number = NaN | PosInfinity | NegInfinity | Num real

text \<open>
  The outcome of \<open>await landmarker.detectForVideo(videoElement, Date.now())\<close>: the promise
  is rejected, or it resolves to a result whose field \<open>landmarks\<close> is missing or is an
  array of hands, each an array of landmarks.
\<close>

datatype detection = Rejected | Resolved "NormalizedLandmark list list option"

text \<open>The three status strings predictWebcam sets (lines 108, 119 and 129).\<close>

datatype status = CHAOS_MODE | FORMED_MODE | No_hand_detected

datatype effect =
    ClearRect
  | SetHandDetected bool
  | DrawConnectors "NormalizedLandmark list"
  | DrawLandmarks "NormalizedLandmark list"
  | OnHandPosition number number bool
  | OnModeChange TreeMode
  | SetGestureStatus status
  | ConsoleError
  | SetTimeout
  | RequestAnimationFrame nat
  | CancelAnimationFrame nat
  | Close nat
  | TrackStop nat

text \<open>
  The video element: its readyState and its srcObject, a media stream given by the list of
  its tracks. The canvas element: whether getContext("2d") returns a context.
\<close>

record video =
  readyState :: nat
  srcObject :: "nat list option"

datatype canvas = Canvas (context2d: bool)

text \<open>The refs of the component (lines 18 to 37).\<close>

record GestureController =
  openFrames :: nat
  closedFrames :: nat
  modeRef :: TreeMode
  animationFrameIdRef :: "nat option"
  handLandmarkerRef :: "nat option"
  videoRef :: "video option"
  canvasRef :: "canvas option"

definition CONFIDENCE_THRESHOLD :: nat where
  "CONFIDENCE_THRESHOLD = 5"

subsection \<open>Double arithmetic\<close>

text \<open>
  The binade of a real: the exponent \<open>e\<close> with \<open>2^e \<le> |x| < 2^(e+1)\<close>, found by
  counting up from the smallest normal exponent -1022 (below it the doubles are subnormal
  and keep that exponent) to the largest, 1023. A double of that binade is an integer
  multiple of \<open>2^(e-52)\<close>.
\<close>

fun binade :: "nat \<Rightarrow> int \<Rightarrow> real \<Rightarrow> int" where
  "binade 0 e x = e"
| "binade (Suc n) e x = (if x < 2 powi (e + 1) then e else binade n (e + 1) x)"

definition exponent :: "real \<Rightarrow> int" where
  "exponent x = binade 2045 (- 1022) \<bar>x\<bar>"

text \<open>The nearest integer, the even one of the two when they are equally near.\<close>

definition roundToEven :: "real \<Rightarrow> int" where
  "roundToEven r =
     (let f = \<lfloor>r\<rfloor>
      in if r - of_int f < 1 / 2 then f
         else if 1 / 2 < r - of_int f then f + 1
         else if even f then f else f + 1)"

text \<open>
  Rounding a real to binary64, to nearest and ties to even: the nearest multiple of the
  spacing of its binade, and an infinity when that is 2^1024 or more in magnitude.
\<close>

definition round64 :: "real \<Rightarrow> number" where
  "round64 x =
     (let ulp = 2 powi (exponent x - 52);
          r = of_int (roundToEven (x / ulp)) * ulp
      in if 2 ^ 1024 \<le> r then PosInfinity
         else if r \<le> - (2 ^ 1024) then NegInfinity
         else Num r)"

text \<open>
  \<open>centerX += landmark.x\<close> with a finite \<open>landmark.x\<close>, and
  \<open>centerX /= landmarks.length\<close>. An infinity or NaN stays what it is; a finite
  number divided by the length 0 is NaN when it is 0 and an infinity otherwise.
\<close>

definition add64 :: "number \<Rightarrow> real \<Rightarrow> number" where
  "add64 a x = (case a of Num r \<Rightarrow> round64 (r + x) | _ \<Rightarrow> a)"

definition div64 :: "number \<Rightarrow> nat \<Rightarrow> number" where
  "div64 a n =
     (case a of
        Num r \<Rightarrow>
          if n = 0 then (if r = 0 then NaN else if 0 < r then PosInfinity else NegInfinity)
          else round64 (r / real n)
      | _ \<Rightarrow> a)"

subsection \<open>One cycle: the try block of predictWebcam (lines 66 to 138)\<close>

text \<open>
  Lines 78 to 86: both sums start at 0, every landmark is added in array order, and each
  sum is divided by the length of the array. On an empty array the division is 0 / 0.
\<close>

definition centroid :: "NormalizedLandmark list \<Rightarrow> number \<times> number" where
  "centroid landmarks =
     (let centerX = foldl (\<lambda>c landmark. add64 c (landmark_x landmark)) (Num 0) landmarks;
          centerY = foldl (\<lambda>c landmark. add64 c (landmark_y landmark)) (Num 0) landmarks
      in (div64 centerX (length landmarks), div64 centerY (length landmarks)))"

text \<open>
  Lines 93 to 99. An index past the end of the array reads undefined, and reading
  \<open>.y\<close> of undefined throws a TypeError: at line 98 when landmarks[8] is missing, at
  line 99 when landmarks[12] is missing. \<open>None\<close> is the TypeError; \<open>Some b\<close> is
  the value of \<open>indexOpen && middleOpen\<close>.
\<close>

definition fingersOpen :: "NormalizedLandmark list \<Rightarrow> bool option" where
  "fingersOpen landmarks =
     (if length landmarks \<le> 8 then None
      else if length landmarks \<le> 12 then None
      else
        (let indexTip = landmarks ! 8;
             indexPIP = landmarks ! 6;
             middleTip = landmarks ! 12;
             middlePIP = landmarks ! 10;
             indexOpen = landmark_y indexTip < landmark_y indexPIP;
             middleOpen = landmark_y middleTip < landmark_y middlePIP
         in Some (indexOpen \<and> middleOpen)))"

text \<open>Lines 101 to 123: the frame counters and the mode change.\<close>

definition countFrames :: "bool \<Rightarrow> GestureController \<Rightarrow> GestureController \<times> effect list" where
  "countFrames bothOpen c =
     (if bothOpen then
        (let c1 = c\<lparr>openFrames := openFrames c + 1, closedFrames := 0\<rparr>
         in if openFrames c1 > CONFIDENCE_THRESHOLD \<and> modeRef c1 = FORMED
            then (c1\<lparr>openFrames := 0\<rparr>, [OnModeChange CHAOS, SetGestureStatus CHAOS_MODE])
            else (c1, []))
      else
        (let c1 = c\<lparr>closedFrames := closedFrames c + 1, openFrames := 0\<rparr>
         in if closedFrames c1 > CONFIDENCE_THRESHOLD \<and> modeRef c1 = CHAOS
            then (c1\<lparr>closedFrames := 0\<rparr>, [OnModeChange FORMED, SetGestureStatus FORMED_MODE])
            else (c1, [])))"

text \<open>Lines 124 to 134: no hand in the result.\<close>

definition noHand :: "bool \<Rightarrow> GestureController \<Rightarrow> GestureController \<times> effect list" where
  "noHand onHandPosition c =
     (c\<lparr>openFrames := 0, closedFrames := 0\<rparr>,
      [SetHandDetected False]
      @ (if onHandPosition then [OnHandPosition (Num 0.5) (Num 0.5) False] else [])
      @ [SetGestureStatus No_hand_detected, ClearRect])"

text \<open>Lines 135 to 138: the catch block.\<close>

definition catchBlock :: "effect list" where
  "catchBlock = [ConsoleError, ClearRect]"

text \<open>
  Lines 69 to 123: a hand is present. The calls up to line 90 are made before the finger
  test can throw, so they stay in the list when it does. The argument
  \<open>onHandPosition\<close> says whether the optional callback was given.
\<close>

definition handPresent ::
  "bool \<Rightarrow> GestureController \<Rightarrow> NormalizedLandmark list \<Rightarrow> NormalizedLandmark list list
     \<Rightarrow> GestureController \<times> effect list" where
  "handPresent onHandPosition c landmarks others =
     (let drawn = concat (map (\<lambda>h. [DrawConnectors h, DrawLandmarks h]) (landmarks # others));
          (centerX, centerY) = centroid landmarks;
          before = [SetHandDetected True] @ drawn
                   @ (if onHandPosition then [OnHandPosition centerX centerY True] else [])
      in case fingersOpen landmarks of
           None \<Rightarrow> (c, before @ catchBlock)
         | Some bothOpen \<Rightarrow>
             (let (c', es) = countFrames bothOpen c in (c', before @ es)))"

definition tryBlock :: "bool \<Rightarrow> GestureController \<Rightarrow> detection \<Rightarrow> GestureController \<times> effect list" where
  "tryBlock onHandPosition c det =
     (case det of
        Rejected \<Rightarrow> (c, catchBlock)
      | Resolved None \<Rightarrow> noHand onHandPosition c
      | Resolved (Some []) \<Rightarrow> noHand onHandPosition c
      | Resolved (Some (landmarks # others)) \<Rightarrow> handPresent onHandPosition c landmarks others)"


subsection \<open>The raw gesture signal of a cycle\<close>

text \<open>
  The source has no value for the signal: it is the branch the detection result selects.
  \<open>UNDETERMINED\<close> is the branch of lines 124 to 134, \<open>OPEN\<close> the branch of
  lines 101 to 111, \<open>CLOSED\<close> the branch of lines 112 to 123. A cycle that ends in
  the catch block has no signal.
\<close>

datatype RawGestureSignal = OPEN | CLOSED | UNDETERMINED

definition rawSignal :: "detection \<Rightarrow> RawGestureSignal option" where
  "rawSignal det =
     (case det of
        Rejected \<Rightarrow> None
      | Resolved None \<Rightarrow> Some UNDETERMINED
      | Resolved (Some []) \<Rightarrow> Some UNDETERMINED
      | Resolved (Some (landmarks # others)) \<Rightarrow>
          (case fingersOpen landmarks of
             None \<Rightarrow> None
           | Some bothOpen \<Rightarrow> Some (if bothOpen then OPEN else CLOSED)))"

text \<open>What a cycle reports: the mode changes and the pointer updates among its calls.\<close>

definition modeChanges :: "effect list \<Rightarrow> TreeMode list" where
  "modeChanges es = concat (map (\<lambda>e. case e of OnModeChange m \<Rightarrow> [m] | _ \<Rightarrow> []) es)"

definition pointerUpdates :: "effect list \<Rightarrow> (number \<times> number \<times> bool) list" where
  "pointerUpdates es =
     concat (map (\<lambda>e. case e of OnHandPosition px py d \<Rightarrow> [(px, py, d)] | _ \<Rightarrow> []) es)"

text \<open>A number is finite and within \<open>eps\<close> of a real, or of another finite number.\<close>

definition near :: "number \<Rightarrow> real \<Rightarrow> real \<Rightarrow> bool" where
  "near v m eps = (case v of Num r \<Rightarrow> \<bar>r - m\<bar> \<le> eps | _ \<Rightarrow> False)"

definition nearEach :: "number \<Rightarrow> number \<Rightarrow> real \<Rightarrow> bool" where
  "nearEach v w eps = (case w of Num q \<Rightarrow> near v q eps | _ \<Rightarrow> False)"

subsection \<open>The parent component (src/unnamed/part_000, App)\<close>

text \<open>
  App holds the mode in a state variable, passes it down as \<open>currentMode\<close> and passes
  its setter as \<open>onModeChange\<close>. The effect of lines 35 to 37 copies the prop into
  \<open>modeRef\<close> after each render. A cycle starts at least 60 ms after the previous one
  ended, so the model lets the render and the effect happen between two cycles.
\<close>

definition setMode :: "TreeMode \<Rightarrow> effect list \<Rightarrow> TreeMode" where
  "setMode mode es = foldl (\<lambda>m e. case e of OnModeChange m' \<Rightarrow> m' | _ \<Rightarrow> m) mode es"

definition cycle ::
  "bool \<Rightarrow> TreeMode \<times> GestureController \<Rightarrow> detection
     \<Rightarrow> (TreeMode \<times> GestureController) \<times> effect list" where
  "cycle onHandPosition a det =
     (let (c', es) = tryBlock onHandPosition ((snd a)\<lparr>modeRef := fst a\<rparr>) det
      in ((setMode (fst a) es, c'), es))"

fun cycles ::
  "bool \<Rightarrow> TreeMode \<times> GestureController \<Rightarrow> detection list
     \<Rightarrow> (TreeMode \<times> GestureController) \<times> effect list list" where
  "cycles onHandPosition a [] = (a, [])"
| "cycles onHandPosition a (det # dets) =
     (let (a1, es) = cycle onHandPosition a det;
          (a2, ess) = cycles onHandPosition a1 dets
      in (a2, es # ess))"

subsection \<open>The second GestureController of the file (lines 293 to 578)\<close>

text \<open>
  The try block of the second predictWebcam (lines 353 to 430), which compares the
  counters with the prop \<open>currentMode\<close> captured by the closure instead of a ref.
\<close>

definition CONFIDENCE_THRESHOLD2 :: nat where
  "CONFIDENCE_THRESHOLD2 = 5"

definition tryBlock2 ::
  "TreeMode \<Rightarrow> bool \<Rightarrow> GestureController \<Rightarrow> detection \<Rightarrow> GestureController \<times> effect list" where
  "tryBlock2 currentMode onHandPosition c det =
     (case det of
        Rejected \<Rightarrow> (c, [ConsoleError, ClearRect])
      | Resolved results \<Rightarrow>
          (case results of
             Some (landmarks # others) \<Rightarrow>
               (let drawn = concat (map (\<lambda>h. [DrawConnectors h, DrawLandmarks h]) (landmarks # others));
                    n = length landmarks;
                    centerX = foldl (\<lambda>s l. add64 s (landmark_x l)) (Num 0) landmarks;
                    centerY = foldl (\<lambda>s l. add64 s (landmark_y l)) (Num 0) landmarks;
                    position =
                      (if onHandPosition
                       then [OnHandPosition (div64 centerX n) (div64 centerY n) True]
                       else []);
                    before = SetHandDetected True # drawn @ position
                in if n < 13 then (c, before @ [ConsoleError, ClearRect])
                   else if landmark_y (landmarks ! 8) < landmark_y (landmarks ! 6)
                           \<and> landmark_y (landmarks ! 12) < landmark_y (landmarks ! 10)
                   then
                     (if openFrames c + 1 > CONFIDENCE_THRESHOLD2 \<and> currentMode = FORMED
                      then (c\<lparr>openFrames := 0, closedFrames := 0\<rparr>,
                            before @ [OnModeChange CHAOS, SetGestureStatus CHAOS_MODE])
                      else (c\<lparr>openFrames := openFrames c + 1, closedFrames := 0\<rparr>, before))
                   else
                     (if closedFrames c + 1 > CONFIDENCE_THRESHOLD2 \<and> currentMode = CHAOS
                      then (c\<lparr>closedFrames := 0, openFrames := 0\<rparr>,
                            before @ [OnModeChange FORMED, SetGestureStatus FORMED_MODE])
                      else (c\<lparr>closedFrames := closedFrames c + 1, openFrames := 0\<rparr>, before)))
           | _ \<Rightarrow>
               (c\<lparr>openFrames := 0, closedFrames := 0\<rparr>,
                SetHandDetected False
                # (if onHandPosition then [OnHandPosition (Num 0.5) (Num 0.5) False] else [])
                @ [SetGestureStatus No_hand_detected, ClearRect])))"

subsection \<open>Scheduling and cleanup\<close>

text \<open>
  The browser side of the loop: the number of pending callbacks of
  \<open>setTimeout(..., 60)\<close>, the handles of the pending callbacks of
  \<open>requestAnimationFrame(predictWebcam)\<close>, the last handle given out (handles are
  positive), and the calls made so far. One cycle runs to its end before the next event
  is taken.
\<close>

record world =
  controller :: GestureController
  timeouts :: nat
  frames :: "nat list"
  lastHandle :: nat
  calls :: "effect list"

text \<open>Lines 50, 57 and 142: \<open>animationFrameIdRef.current = requestAnimationFrame(predictWebcam)\<close>.\<close>

definition scheduleFrame :: "world \<Rightarrow> world" where
  "scheduleFrame w =
     (let h = lastHandle w + 1
      in w\<lparr>controller := (controller w)\<lparr>animationFrameIdRef := Some h\<rparr>,
           frames := frames w @ [h],
           lastHandle := h,
           calls := calls w @ [RequestAnimationFrame h]\<rparr>)"

text \<open>
  predictWebcam, lines 41 to 144. \<open>det\<close> is the outcome of the detection call of this
  cycle; it is read only when the call is made. The resizing of the canvas (lines 62 and
  63) is left out.
\<close>

definition predictWebcam :: "bool \<Rightarrow> detection \<Rightarrow> world \<Rightarrow> world" where
  "predictWebcam onHandPosition det w =
     (case (videoRef (controller w), handLandmarkerRef (controller w), canvasRef (controller w)) of
        (Some videoElement, Some landmarker, Some canvasElement) \<Rightarrow>
          if readyState videoElement < 2 then scheduleFrame w
          else if \<not> context2d canvasElement
          then scheduleFrame (w\<lparr>calls := calls w @ [ConsoleError]\<rparr>)
          else
            (let (c', es) = tryBlock onHandPosition (controller w) det
             in w\<lparr>controller := c',
                  timeouts := timeouts w + 1,
                  calls := calls w @ [ClearRect] @ es @ [SetTimeout]\<rparr>)
      | _ \<Rightarrow> scheduleFrame w)"

text \<open>
  The cleanup function of the effect, lines 235 to 251. Cancelling a handle removes its
  pending callback, if there is one.
\<close>

definition cleanup :: "world \<Rightarrow> world" where
  "cleanup w =
     (let w1 = (case animationFrameIdRef (controller w) of
                  None \<Rightarrow> w
                | Some h \<Rightarrow>
                    if h = 0 then w
                    else w\<lparr>frames := removeAll h (frames w),
                           calls := calls w @ [CancelAnimationFrame h]\<rparr>);
          w2 = (case handLandmarkerRef (controller w1) of
                  None \<Rightarrow> w1
                | Some landmarker \<Rightarrow>
                    w1\<lparr>controller := (controller w1)\<lparr>handLandmarkerRef := None\<rparr>,
                        calls := calls w1 @ [Close landmarker]\<rparr>)
      in case videoRef (controller w2) of
           None \<Rightarrow> w2
         | Some v \<Rightarrow>
             (case srcObject v of
                None \<Rightarrow> w2
              | Some stream \<Rightarrow>
                  w2\<lparr>controller := (controller w2)\<lparr>videoRef := Some (v\<lparr>srcObject := None\<rparr>)\<rparr>,
                      calls := calls w2 @ map TrackStop stream\<rparr>))"

text \<open>
  The events of the loop: a pending timeout fires (line 141: its callback requests a
  frame), a pending frame callback fires (predictWebcam runs), the component unmounts.
  An event that is not pending changes nothing. On unmount React detaches the refs of the
  video and canvas elements before it runs the cleanup of the effect, so the cleanup finds
  \<open>videoRef.current\<close> null.
\<close>

datatype event = TimeoutFires | FrameFires nat detection | Unmount

definition fire :: "bool \<Rightarrow> event \<Rightarrow> world \<Rightarrow> world" where
  "fire onHandPosition e w =
     (case e of
        TimeoutFires \<Rightarrow>
          if timeouts w = 0 then w else scheduleFrame (w\<lparr>timeouts := timeouts w - 1\<rparr>)
      | FrameFires h det \<Rightarrow>
          if h \<in> set (frames w)
          then predictWebcam onHandPosition det (w\<lparr>frames := removeAll h (frames w)\<rparr>)
          else w
      | Unmount \<Rightarrow>
          cleanup (w\<lparr>controller := (controller w)\<lparr>videoRef := None, canvasRef := None\<rparr>\<rparr>))"

text \<open>
  The guards of lines 49 and 55 both pass: the video element, the detector and the canvas
  are there, the video has data (readyState at least 2) and the canvas gives a 2D context.
\<close>

definition ready :: "world \<Rightarrow> bool" where
  "ready w =
     (case (videoRef (controller w), handLandmarkerRef (controller w), canvasRef (controller w)) of
        (Some videoElement, Some landmarker, Some canvasElement) \<Rightarrow>
          2 \<le> readyState videoElement \<and> context2d canvasElement
      | _ \<Rightarrow> False)"

definition releases :: "effect list \<Rightarrow> effect list" where
  "releases es = filter (\<lambda>e. case e of Close l \<Rightarrow> True | TrackStop t \<Rightarrow> True | _ \<Rightarrow> False) es"

definition cancels :: "effect list \<Rightarrow> effect list" where
  "cancels es = filter (\<lambda>e. case e of CancelAnimationFrame h \<Rightarrow> True | _ \<Rightarrow> False) es"

subsection \<open>Example inputs\<close>

text \<open>
  A hand of 21 landmarks with no finger raised, the same hand with the tips of the index
  and middle finger (landmarks 8 and 12) above their joints, the refs of a freshly
  mounted component, and a world in which the loop waits for its timeout. Then a hand of
  21 landmarks on the top edge of the frame, one of them in the right corner and two of
  them 2^-53 from the left corner, and the same landmarks in another order. All
  coordinates are doubles.
\<close>

definition closedHand :: "NormalizedLandmark list" where
  "closedHand = replicate 21 (Landmark 0.5 0.5)"

definition openHand :: "NormalizedLandmark list" where
  "openHand = closedHand[8 := Landmark 0.5 0.25, 12 := Landmark 0.5 0.25]"

definition edgeHand :: "NormalizedLandmark list" where
  "edgeHand =
     [Landmark 1 0, Landmark (1 / 2 ^ 53) 0, Landmark (1 / 2 ^ 53) 0] @ replicate 18 (Landmark 0 0)"

definition edgeHandReordered :: "NormalizedLandmark list" where
  "edgeHandReordered =
     [Landmark (1 / 2 ^ 53) 0, Landmark (1 / 2 ^ 53) 0, Landmark 1 0] @ replicate 18 (Landmark 0 0)"

definition mounted :: GestureController where
  "mounted =
     \<lparr>openFrames = 0, closedFrames = 0, modeRef = FORMED,
      animationFrameIdRef = None, handLandmarkerRef = None,
      videoRef = Some \<lparr>readyState = 0, srcObject = None\<rparr>,
      canvasRef = Some (Canvas True)\<rparr>"

definition running :: GestureController where
  "running =
     mounted\<lparr>animationFrameIdRef := Some 1, handLandmarkerRef := Some 7,
             videoRef := Some \<lparr>readyState = 4, srcObject = Some [0]\<rparr>\<rparr>"

definition waiting :: world where
  "waiting = \<lparr>controller = running, timeouts = 1, frames = [], lastHandle = 1, calls = []\<rparr>"

text \<open>The world right after mount: nothing created, acquired or scheduled yet.\<close>

definition fresh :: world where
  "fresh = \<lparr>controller = mounted, timeouts = 0, frames = [], lastHandle = 0, calls = []\<rparr>"

section \<open>Lemmas about one cycle and about runs of one signal\<close>

lemma tryBlock_signal:
  "rawSignal det = Some OPEN \<Longrightarrow>
     fst (tryBlock hp c det) = fst (countFrames True c) \<and>
     modeChanges (snd (tryBlock hp c det)) = modeChanges (snd (countFrames True c))"
  "rawSignal det = Some CLOSED \<Longrightarrow>
     fst (tryBlock hp c det) = fst (countFrames False c) \<and>
     modeChanges (snd (tryBlock hp c det)) = modeChanges (snd (countFrames False c))"
  "rawSignal det = Some UNDETERMINED \<Longrightarrow>
     fst (tryBlock hp c det) = c\<lparr>openFrames := 0, closedFrames := 0\<rparr> \<and>
     modeChanges (snd (tryBlock hp c det)) = []"
  by (auto simp: rawSignal_def tryBlock_def handPresent_def noHand_def modeChanges_def Let_def
        split: detection.splits option.splits list.splits prod.splits if_splits)


lemma setMode_modeChanges:
  "setMode mode es = last (mode # modeChanges es)"
proof -
  have "foldl (\<lambda>m e. case e of OnModeChange m' \<Rightarrow> m' | _ \<Rightarrow> m) mode es =
        last (mode # concat (map (\<lambda>e. case e of OnModeChange m \<Rightarrow> [m] | _ \<Rightarrow> []) es))"
    by (induction es arbitrary: mode) (auto split: effect.splits)
  then show ?thesis by (simp add: setMode_def modeChanges_def)
qed

lemma cycle_parts:
  "fst (fst (cycle hp (mode, c) det)) =
     last (mode # modeChanges (snd (tryBlock hp (c\<lparr>modeRef := mode\<rparr>) det)))"
  "snd (fst (cycle hp (mode, c) det)) = fst (tryBlock hp (c\<lparr>modeRef := mode\<rparr>) det)"
  "snd (cycle hp (mode, c) det) = snd (tryBlock hp (c\<lparr>modeRef := mode\<rparr>) det)"
  by (simp_all add: cycle_def setMode_modeChanges split: prod.splits)

lemma cycle_OPEN:
  assumes "rawSignal det = Some OPEN"
  shows "fst (fst (cycle hp (mode, c) det)) =
           (if CONFIDENCE_THRESHOLD < openFrames c + 1 \<and> mode = FORMED then CHAOS else mode)"
    and "openFrames (snd (fst (cycle hp (mode, c) det))) =
           (if CONFIDENCE_THRESHOLD < openFrames c + 1 \<and> mode = FORMED then 0 else openFrames c + 1)"
    and "closedFrames (snd (fst (cycle hp (mode, c) det))) = 0"
    and "modeChanges (snd (cycle hp (mode, c) det)) =
           (if CONFIDENCE_THRESHOLD < openFrames c + 1 \<and> mode = FORMED then [CHAOS] else [])"
  using tryBlock_signal(1)[OF assms, of hp "c\<lparr>modeRef := mode\<rparr>"]
  by (simp_all add: cycle_parts countFrames_def modeChanges_def Let_def)

lemma cycle_CLOSED:
  assumes "rawSignal det = Some CLOSED"
  shows "fst (fst (cycle hp (mode, c) det)) =
           (if CONFIDENCE_THRESHOLD < closedFrames c + 1 \<and> mode = CHAOS then FORMED else mode)"
    and "closedFrames (snd (fst (cycle hp (mode, c) det))) =
           (if CONFIDENCE_THRESHOLD < closedFrames c + 1 \<and> mode = CHAOS then 0 else closedFrames c + 1)"
    and "openFrames (snd (fst (cycle hp (mode, c) det))) = 0"
    and "modeChanges (snd (cycle hp (mode, c) det)) =
           (if CONFIDENCE_THRESHOLD < closedFrames c + 1 \<and> mode = CHAOS then [FORMED] else [])"
  using tryBlock_signal(2)[OF assms, of hp "c\<lparr>modeRef := mode\<rparr>"]
  by (simp_all add: cycle_parts countFrames_def modeChanges_def Let_def)

text \<open>A run of one signal: the mode changes of each cycle and the state at the end.\<close>

lemma cycles_Cons:
  "snd (cycles hp a (det # dets)) = snd (cycle hp a det) # snd (cycles hp (fst (cycle hp a det)) dets)"
  "fst (cycles hp a (det # dets)) = fst (cycles hp (fst (cycle hp a det)) dets)"
  by (simp_all split: prod.splits)

lemma OPEN_run_in_CHAOS:
  assumes "\<forall>det\<in>set dets. rawSignal det = Some OPEN"
  shows "map modeChanges (snd (cycles hp (CHAOS, c) dets)) = replicate (length dets) [] \<and>
         fst (fst (cycles hp (CHAOS, c) dets)) = CHAOS"
  using assms
proof (induction dets arbitrary: c)
  case Nil
  then show ?case by simp
next
  case (Cons det dets)
  obtain c' where c': "fst (cycle hp (CHAOS, c) det) = (CHAOS, c')"
    using cycle_OPEN(1)[of det hp CHAOS c] Cons.prems by (cases "fst (cycle hp (CHAOS, c) det)") simp
  have "modeChanges (snd (cycle hp (CHAOS, c) det)) = []"
    using cycle_OPEN(4)[of det hp CHAOS c] Cons.prems by simp
  with c' Cons.IH[of c'] Cons.prems show ?case
    by (simp only: cycles_Cons) simp
qed

lemma OPEN_run_in_FORMED:
  assumes "\<forall>det\<in>set dets. rawSignal det = Some OPEN"
    and "openFrames c \<le> CONFIDENCE_THRESHOLD"
    and "CONFIDENCE_THRESHOLD - openFrames c < length dets"
  shows "map modeChanges (snd (cycles hp (FORMED, c) dets)) =
           replicate (CONFIDENCE_THRESHOLD - openFrames c) [] @ [[CHAOS]]
           @ replicate (length dets - (CONFIDENCE_THRESHOLD + 1 - openFrames c)) [] \<and>
         fst (fst (cycles hp (FORMED, c) dets)) = CHAOS"
  using assms
proof (induction dets arbitrary: c)
  case Nil
  then show ?case by simp
next
  case (Cons det dets)
  have sig: "rawSignal det = Some OPEN" and rest: "\<forall>d\<in>set dets. rawSignal d = Some OPEN"
    using Cons.prems(1) by simp_all
  show ?case
  proof (cases "openFrames c = CONFIDENCE_THRESHOLD")
    case True
    obtain c' where c': "fst (cycle hp (FORMED, c) det) = (CHAOS, c')"
      using cycle_OPEN(1)[OF sig, of hp FORMED c] True
      by (cases "fst (cycle hp (FORMED, c) det)") simp
    have ev: "modeChanges (snd (cycle hp (FORMED, c) det)) = [CHAOS]"
      using cycle_OPEN(4)[OF sig, of hp FORMED c] True by simp
    from c' ev OPEN_run_in_CHAOS[OF rest, of hp c'] True show ?thesis
      by (simp only: cycles_Cons) simp
  next
    case False
    with Cons.prems(2) have lt: "openFrames c < CONFIDENCE_THRESHOLD" by simp
    obtain c' where c': "fst (cycle hp (FORMED, c) det) = (FORMED, c')"
      using cycle_OPEN(1)[OF sig, of hp FORMED c] lt
      by (cases "fst (cycle hp (FORMED, c) det)") simp
    have o': "openFrames c' = openFrames c + 1"
      using cycle_OPEN(2)[OF sig, of hp FORMED c] lt c' by simp
    have ev: "modeChanges (snd (cycle hp (FORMED, c) det)) = []"
      using cycle_OPEN(4)[OF sig, of hp FORMED c] lt by simp
    have len: "CONFIDENCE_THRESHOLD - openFrames c' < length dets"
      using Cons.prems(3) o' lt by simp
    have le: "openFrames c' \<le> CONFIDENCE_THRESHOLD" using o' lt by simp
    have rep: "replicate (CONFIDENCE_THRESHOLD - openFrames c) ([]::TreeMode list) =
               [] # replicate (CONFIDENCE_THRESHOLD - openFrames c') []"
      using o' lt by (cases "CONFIDENCE_THRESHOLD - openFrames c") auto
    have cnt: "length (det # dets) - (CONFIDENCE_THRESHOLD + 1 - openFrames c) =
               length dets - (CONFIDENCE_THRESHOLD + 1 - openFrames c')"
      using o' lt by simp
    from Cons.IH[OF rest le len] c' ev show ?thesis
      unfolding rep cnt by (simp only: cycles_Cons) simp
  qed
qed


lemma OPEN_run_resets:
  assumes "\<forall>det\<in>set dets. rawSignal det = Some OPEN"
    and "openFrames c \<le> CONFIDENCE_THRESHOLD"
    and "length dets = CONFIDENCE_THRESHOLD + 1 - openFrames c"
  shows "openFrames (snd (fst (cycles hp (FORMED, c) dets))) = 0 \<and>
         closedFrames (snd (fst (cycles hp (FORMED, c) dets))) = 0"
  using assms
proof (induction dets arbitrary: c)
  case Nil
  then show ?case by simp
next
  case (Cons det dets)
  have sig: "rawSignal det = Some OPEN" and rest: "\<forall>d\<in>set dets. rawSignal d = Some OPEN"
    using Cons.prems(1) by simp_all
  show ?case
  proof (cases "openFrames c = CONFIDENCE_THRESHOLD")
    case True
    then have "dets = []" using Cons.prems(3) by simp
    then show ?thesis
      using cycle_OPEN(2,3)[OF sig, of hp FORMED c] True by (simp only: cycles_Cons) simp
  next
    case False
    with Cons.prems(2) have lt: "openFrames c < CONFIDENCE_THRESHOLD" by simp
    obtain c' where c': "fst (cycle hp (FORMED, c) det) = (FORMED, c')"
      using cycle_OPEN(1)[OF sig, of hp FORMED c] lt
      by (cases "fst (cycle hp (FORMED, c) det)") simp
    have o': "openFrames c' = openFrames c + 1"
      using cycle_OPEN(2)[OF sig, of hp FORMED c] lt c' by simp
    have len: "length dets = CONFIDENCE_THRESHOLD + 1 - openFrames c'"
      using Cons.prems(3) o' lt by simp
    have le: "openFrames c' \<le> CONFIDENCE_THRESHOLD" using o' lt by simp
    from Cons.IH[OF rest le len] c' show ?thesis
      by (simp only: cycles_Cons)
  qed
qed

lemma CLOSED_run_in_FORMED:
  assumes "\<forall>det\<in>set dets. rawSignal det = Some CLOSED"
  shows "map modeChanges (snd (cycles hp (FORMED, c) dets)) = replicate (length dets) [] \<and>
         fst (fst (cycles hp (FORMED, c) dets)) = FORMED"
  using assms
proof (induction dets arbitrary: c)
  case Nil
  then show ?case by simp
next
  case (Cons det dets)
  obtain c' where c': "fst (cycle hp (FORMED, c) det) = (FORMED, c')"
    using cycle_CLOSED(1)[of det hp FORMED c] Cons.prems by (cases "fst (cycle hp (FORMED, c) det)") simp
  have "modeChanges (snd (cycle hp (FORMED, c) det)) = []"
    using cycle_CLOSED(4)[of det hp FORMED c] Cons.prems by simp
  with c' Cons.IH[of c'] Cons.prems show ?case
    by (simp only: cycles_Cons) simp
qed

lemma CLOSED_run_in_CHAOS:
  assumes "\<forall>det\<in>set dets. rawSignal det = Some CLOSED"
    and "closedFrames c \<le> CONFIDENCE_THRESHOLD"
    and "CONFIDENCE_THRESHOLD - closedFrames c < length dets"
  shows "map modeChanges (snd (cycles hp (CHAOS, c) dets)) =
           replicate (CONFIDENCE_THRESHOLD - closedFrames c) [] @ [[FORMED]]
           @ replicate (length dets - (CONFIDENCE_THRESHOLD + 1 - closedFrames c)) [] \<and>
         fst (fst (cycles hp (CHAOS, c) dets)) = FORMED"
  using assms
proof (induction dets arbitrary: c)
  case Nil
  then show ?case by simp
next
  case (Cons det dets)
  have sig: "rawSignal det = Some CLOSED" and rest: "\<forall>d\<in>set dets. rawSignal d = Some CLOSED"
    using Cons.prems(1) by simp_all
  show ?case
  proof (cases "closedFrames c = CONFIDENCE_THRESHOLD")
    case True
    obtain c' where c': "fst (cycle hp (CHAOS, c) det) = (FORMED, c')"
      using cycle_CLOSED(1)[OF sig, of hp CHAOS c] True
      by (cases "fst (cycle hp (CHAOS, c) det)") simp
    have ev: "modeChanges (snd (cycle hp (CHAOS, c) det)) = [FORMED]"
      using cycle_CLOSED(4)[OF sig, of hp CHAOS c] True by simp
    from c' ev CLOSED_run_in_FORMED[OF rest, of hp c'] True show ?thesis
      by (simp only: cycles_Cons) simp
  next
    case False
    with Cons.prems(2) have lt: "closedFrames c < CONFIDENCE_THRESHOLD" by simp
    obtain c' where c': "fst (cycle hp (CHAOS, c) det) = (CHAOS, c')"
      using cycle_CLOSED(1)[OF sig, of hp CHAOS c] lt
      by (cases "fst (cycle hp (CHAOS, c) det)") simp
    have o': "closedFrames c' = closedFrames c + 1"
      using cycle_CLOSED(2)[OF sig, of hp CHAOS c] lt c' by simp
    have ev: "modeChanges (snd (cycle hp (CHAOS, c) det)) = []"
      using cycle_CLOSED(4)[OF sig, of hp CHAOS c] lt by simp
    have len: "CONFIDENCE_THRESHOLD - closedFrames c' < length dets"
      using Cons.prems(3) o' lt by simp
    have le: "closedFrames c' \<le> CONFIDENCE_THRESHOLD" using o' lt by simp
    have rep: "replicate (CONFIDENCE_THRESHOLD - closedFrames c) ([]::TreeMode list) =
               [] # replicate (CONFIDENCE_THRESHOLD - closedFrames c') []"
      using o' lt by (cases "CONFIDENCE_THRESHOLD - closedFrames c") auto
    have cnt: "length (det # dets) - (CONFIDENCE_THRESHOLD + 1 - closedFrames c) =
               length dets - (CONFIDENCE_THRESHOLD + 1 - closedFrames c')"
      using o' lt by simp
    from Cons.IH[OF rest le len] c' ev show ?thesis
      unfolding rep cnt by (simp only: cycles_Cons) simp
  qed
qed

lemma CLOSED_run_resets:
  assumes "\<forall>det\<in>set dets. rawSignal det = Some CLOSED"
    and "closedFrames c \<le> CONFIDENCE_THRESHOLD"
    and "length dets = CONFIDENCE_THRESHOLD + 1 - closedFrames c"
  shows "openFrames (snd (fst (cycles hp (CHAOS, c) dets))) = 0 \<and>
         closedFrames (snd (fst (cycles hp (CHAOS, c) dets))) = 0"
  using assms
proof (induction dets arbitrary: c)
  case Nil
  then show ?case by simp
next
  case (Cons det dets)
  have sig: "rawSignal det = Some CLOSED" and rest: "\<forall>d\<in>set dets. rawSignal d = Some CLOSED"
    using Cons.prems(1) by simp_all
  show ?case
  proof (cases "closedFrames c = CONFIDENCE_THRESHOLD")
    case True
    then have "dets = []" using Cons.prems(3) by simp
    then show ?thesis
      using cycle_CLOSED(2,3)[OF sig, of hp CHAOS c] True by (simp only: cycles_Cons) simp
  next
    case False
    with Cons.prems(2) have lt: "closedFrames c < CONFIDENCE_THRESHOLD" by simp
    obtain c' where c': "fst (cycle hp (CHAOS, c) det) = (CHAOS, c')"
      using cycle_CLOSED(1)[OF sig, of hp CHAOS c] lt
      by (cases "fst (cycle hp (CHAOS, c) det)") simp
    have o': "closedFrames c' = closedFrames c + 1"
      using cycle_CLOSED(2)[OF sig, of hp CHAOS c] lt c' by simp
    have len: "length dets = CONFIDENCE_THRESHOLD + 1 - closedFrames c'"
      using Cons.prems(3) o' lt by simp
    have le: "closedFrames c' \<le> CONFIDENCE_THRESHOLD" using o' lt by simp
    from Cons.IH[OF rest le len] c' show ?thesis
      by (simp only: cycles_Cons)
  qed
qed

lemma rawSignal_examples:
  "rawSignal (Resolved (Some [openHand])) = Some OPEN"
  "rawSignal (Resolved (Some [closedHand])) = Some CLOSED"
  "rawSignal (Resolved (Some [])) = Some UNDETERMINED"
  by (simp_all add: rawSignal_def fingersOpen_def openHand_def closedHand_def)

section \<open>The claims\<close>

text \<open>
  C1. The parent starts in FORMED (or, for the symmetric half, in CHAOS) and both frame
  counters are 0. Over any run of more than CONFIDENCE_THRESHOLD = 5 cycles whose raw
  signal is OPEN, the cycles report exactly one mode change, to CHAOS, and it is the
  sixth cycle that reports it: the first five report none and no later one does. After
  the sixth cycle the mode is CHAOS and openFrames is 0 again. The same holds for a run
  of CLOSED cycles started in CHAOS, with FORMED and closedFrames.
\<close>

theorem C1_debounce_run:
  assumes "CONFIDENCE_THRESHOLD < length opens"
    and "\<forall>det\<in>set opens. rawSignal det = Some OPEN"
    and "CONFIDENCE_THRESHOLD < length closeds"
    and "\<forall>det\<in>set closeds. rawSignal det = Some CLOSED"
    and "openFrames c = 0" and "closedFrames c = 0"
  shows
    "map modeChanges (snd (cycles onHandPosition (FORMED, c) opens)) =
       replicate 5 [] @ [[CHAOS]] @ replicate (length opens - 6) [] \<and>
     fst (fst (cycles onHandPosition (FORMED, c) (take 6 opens))) = CHAOS \<and>
     openFrames (snd (fst (cycles onHandPosition (FORMED, c) (take 6 opens)))) = 0 \<and>
     map modeChanges (snd (cycles onHandPosition (CHAOS, c) closeds)) =
       replicate 5 [] @ [[FORMED]] @ replicate (length closeds - 6) [] \<and>
     fst (fst (cycles onHandPosition (CHAOS, c) (take 6 closeds))) = FORMED \<and>
     closedFrames (snd (fst (cycles onHandPosition (CHAOS, c) (take 6 closeds)))) = 0"
proof -
  have o6: "\<forall>det\<in>set (take 6 opens). rawSignal det = Some OPEN"
    using assms(2) by (meson in_set_takeD)
  have c6: "\<forall>det\<in>set (take 6 closeds). rawSignal det = Some CLOSED"
    using assms(4) by (meson in_set_takeD)
  have lo: "length (take 6 opens) = 6" and lc: "length (take 6 closeds) = 6"
    using assms(1,3) by (simp_all add: CONFIDENCE_THRESHOLD_def)
  have 1: "map modeChanges (snd (cycles onHandPosition (FORMED, c) opens)) =
       replicate 5 [] @ [[CHAOS]] @ replicate (length opens - 6) []"
    using OPEN_run_in_FORMED[OF assms(2), of c onHandPosition] assms(1,5)
    by (simp add: CONFIDENCE_THRESHOLD_def)
  have 2: "fst (fst (cycles onHandPosition (FORMED, c) (take 6 opens))) = CHAOS"
    using OPEN_run_in_FORMED[OF o6, of c onHandPosition] assms(5) lo
    by (simp add: CONFIDENCE_THRESHOLD_def)
  have 3: "openFrames (snd (fst (cycles onHandPosition (FORMED, c) (take 6 opens)))) = 0"
    using OPEN_run_resets[OF o6, of c onHandPosition] assms(5) lo
    by (simp add: CONFIDENCE_THRESHOLD_def)
  have 4: "map modeChanges (snd (cycles onHandPosition (CHAOS, c) closeds)) =
       replicate 5 [] @ [[FORMED]] @ replicate (length closeds - 6) []"
    using CLOSED_run_in_CHAOS[OF assms(4), of c onHandPosition] assms(3,6)
    by (simp add: CONFIDENCE_THRESHOLD_def)
  have 5: "fst (fst (cycles onHandPosition (CHAOS, c) (take 6 closeds))) = FORMED"
    using CLOSED_run_in_CHAOS[OF c6, of c onHandPosition] assms(6) lc
    by (simp add: CONFIDENCE_THRESHOLD_def)
  have 6: "closedFrames (snd (fst (cycles onHandPosition (CHAOS, c) (take 6 closeds)))) = 0"
    using CLOSED_run_resets[OF c6, of c onHandPosition] assms(6) lc
    by (simp add: CONFIDENCE_THRESHOLD_def)
  from 1 2 3 4 5 6 show ?thesis by blast
qed

theorem C1_debounce_run_witness:
  "CONFIDENCE_THRESHOLD < length (replicate 8 (Resolved (Some [openHand]))) \<and>
   rawSignal (Resolved (Some [openHand])) = Some OPEN \<and>
   CONFIDENCE_THRESHOLD < length (replicate 6 (Resolved (Some [closedHand]))) \<and>
   rawSignal (Resolved (Some [closedHand])) = Some CLOSED \<and>
   openFrames mounted = 0 \<and> closedFrames mounted = 0 \<and>
   map modeChanges (snd (cycles True (FORMED, mounted) (replicate 8 (Resolved (Some [openHand]))))) =
     [[], [], [], [], [], [CHAOS], [], []] \<and>
   map modeChanges (snd (cycles True (CHAOS, mounted) (replicate 6 (Resolved (Some [closedHand]))))) =
     [[], [], [], [], [], [FORMED]]"
proof -
  have h1: "CONFIDENCE_THRESHOLD < length (replicate 8 (Resolved (Some [openHand])))"
    by (simp add: CONFIDENCE_THRESHOLD_def)
  have h2: "\<forall>det\<in>set (replicate 8 (Resolved (Some [openHand]))). rawSignal det = Some OPEN"
    by (simp add: rawSignal_examples)
  have h3: "CONFIDENCE_THRESHOLD < length (replicate 6 (Resolved (Some [closedHand])))"
    by (simp add: CONFIDENCE_THRESHOLD_def)
  have h4: "\<forall>det\<in>set (replicate 6 (Resolved (Some [closedHand]))). rawSignal det = Some CLOSED"
    by (simp add: rawSignal_examples)
  have h5: "openFrames mounted = 0" and h6: "closedFrames mounted = 0"
    by (simp_all add: mounted_def)
  have rep: "replicate 5 ([]::TreeMode list) = [[], [], [], [], []]"
    by (simp add: numeral_eq_Suc)
  show ?thesis
    using C1_debounce_run[OF h1 h2 h3 h4 h5 h6, of True] h1 h3 h5 h6
    by (simp add: rawSignal_examples rep numeral_2_eq_2)
qed

text \<open>
  C2 as stated fails: a cycle with no hand does not advance a counter. Started in FORMED
  with closedFrames = 3, such a cycle leaves closedFrames at 0, not 4; started in CHAOS
  with openFrames = 3, it leaves openFrames at 0, not 4.
\<close>

theorem C2_counterexample:
  "rawSignal (Resolved (Some [])) = Some UNDETERMINED \<and>
   modeRef (mounted\<lparr>closedFrames := 3\<rparr>) = FORMED \<and>
   closedFrames (fst (tryBlock True (mounted\<lparr>closedFrames := 3\<rparr>) (Resolved (Some [])))) = 0 \<and>
   closedFrames (fst (tryBlock True (mounted\<lparr>closedFrames := 3\<rparr>) (Resolved (Some []))))
     \<noteq> closedFrames (mounted\<lparr>closedFrames := 3\<rparr>) + 1 \<and>
   modeRef (mounted\<lparr>modeRef := CHAOS, openFrames := 3\<rparr>) = CHAOS \<and>
   openFrames (fst (tryBlock True (mounted\<lparr>modeRef := CHAOS, openFrames := 3\<rparr>) (Resolved (Some [])))) = 0 \<and>
   openFrames (fst (tryBlock True (mounted\<lparr>modeRef := CHAOS, openFrames := 3\<rparr>) (Resolved (Some []))))
     \<noteq> openFrames (mounted\<lparr>modeRef := CHAOS, openFrames := 3\<rparr>) + 1"
  by (simp add: rawSignal_def tryBlock_def noHand_def mounted_def)

text \<open>
  C2, amended. On every cycle whose raw signal is UNDETERMINED (lines 124 to 134), both
  frame counters are set to 0, whatever the mode and whatever the counters were; no other
  ref changes, and the cycle reports no mode change.
\<close>

theorem C2_no_hand_resets_both:
  assumes "rawSignal det = Some UNDETERMINED"
  shows "fst (tryBlock onHandPosition c det) = c\<lparr>openFrames := 0, closedFrames := 0\<rparr> \<and>
         openFrames (fst (tryBlock onHandPosition c det)) = 0 \<and>
         closedFrames (fst (tryBlock onHandPosition c det)) = 0 \<and>
         modeChanges (snd (tryBlock onHandPosition c det)) = []"
  using tryBlock_signal(3)[OF assms, of onHandPosition c] by simp

theorem C2_no_hand_resets_both_witness:
  "rawSignal (Resolved None) = Some UNDETERMINED \<and>
   openFrames (fst (tryBlock True (mounted\<lparr>closedFrames := 3\<rparr>) (Resolved None))) = 0 \<and>
   closedFrames (fst (tryBlock True (mounted\<lparr>closedFrames := 3\<rparr>) (Resolved None))) = 0 \<and>
   modeChanges (snd (tryBlock True (mounted\<lparr>closedFrames := 3\<rparr>) (Resolved None))) = []"
proof -
  have h: "rawSignal (Resolved None) = Some UNDETERMINED"
    by (simp add: rawSignal_def)
  show ?thesis
    using C2_no_hand_resets_both[OF h, of True "mounted\<lparr>closedFrames := 3\<rparr>"] h by simp
qed

lemma tryBlock_exclusive:
  assumes "openFrames c = 0 \<or> closedFrames c = 0"
  shows "openFrames (fst (tryBlock hp c det)) = 0 \<or> closedFrames (fst (tryBlock hp c det)) = 0"
  using assms
  by (auto simp: tryBlock_def handPresent_def noHand_def countFrames_def Let_def
        split: detection.splits option.splits list.splits prod.splits if_splits)

lemma cycles_exclusive:
  assumes "openFrames c = 0 \<or> closedFrames c = 0"
  shows "openFrames (snd (fst (cycles hp (mode, c) dets))) = 0 \<or>
         closedFrames (snd (fst (cycles hp (mode, c) dets))) = 0"
  using assms
proof (induction dets arbitrary: mode c)
  case Nil
  then show ?case by simp
next
  case (Cons det dets)
  obtain mode' c' where a: "fst (cycle hp (mode, c) det) = (mode', c')"
    by (cases "fst (cycle hp (mode, c) det)") simp
  then have "c' = fst (tryBlock hp (c\<lparr>modeRef := mode\<rparr>) det)"
    using cycle_parts(2)[of hp mode c det] by simp
  then have "openFrames c' = 0 \<or> closedFrames c' = 0"
    using tryBlock_exclusive[of "c\<lparr>modeRef := mode\<rparr>" hp det] Cons.prems by simp
  from Cons.IH[OF this] a show ?case
    by (simp only: cycles_Cons)
qed

text \<open>
  C3. If at most one of openFrames and closedFrames is non-zero before a cycle, at most
  one is non-zero after it, for every outcome of the detection call: OPEN, CLOSED, no hand,
  a rejected call, or a landmark array too short for the finger test. Hence the same holds
  after any sequence of cycles, with the mode changes applied by the parent in between.
\<close>

theorem C3_counters_exclusive:
  assumes "openFrames c = 0 \<or> closedFrames c = 0"
  shows "(openFrames (fst (tryBlock onHandPosition c det)) = 0 \<or>
          closedFrames (fst (tryBlock onHandPosition c det)) = 0) \<and>
         (openFrames (snd (fst (cycles onHandPosition (mode, c) dets))) = 0 \<or>
          closedFrames (snd (fst (cycles onHandPosition (mode, c) dets))) = 0)"
  using tryBlock_exclusive[OF assms, of onHandPosition det]
    cycles_exclusive[OF assms, of onHandPosition mode dets] by simp

theorem C3_counters_exclusive_witness:
  "(openFrames (mounted\<lparr>openFrames := 3\<rparr>) = 0 \<or> closedFrames (mounted\<lparr>openFrames := 3\<rparr>) = 0) \<and>
   (openFrames (fst (tryBlock True (mounted\<lparr>openFrames := 3\<rparr>) Rejected)) = 0 \<or>
    closedFrames (fst (tryBlock True (mounted\<lparr>openFrames := 3\<rparr>) Rejected)) = 0) \<and>
   (openFrames (snd (fst (cycles True (FORMED, mounted\<lparr>openFrames := 3\<rparr>)
       [Resolved (Some [openHand]), Rejected, Resolved (Some [closedHand]), Resolved None]))) = 0 \<or>
    closedFrames (snd (fst (cycles True (FORMED, mounted\<lparr>openFrames := 3\<rparr>)
       [Resolved (Some [openHand]), Rejected, Resolved (Some [closedHand]), Resolved None]))) = 0)"
proof -
  have h: "openFrames (mounted\<lparr>openFrames := 3\<rparr>) = 0 \<or> closedFrames (mounted\<lparr>openFrames := 3\<rparr>) = 0"
    by (simp add: mounted_def)
  show ?thesis
    using C3_counters_exclusive[OF h, of True Rejected FORMED
        "[Resolved (Some [openHand]), Rejected, Resolved (Some [closedHand]), Resolved None]"] h
    by simp
qed

text \<open>
  C4. For a hand with at least 13 landmarks (the detector gives 21), the raw signal is
  OPEN exactly when landmark 8 lies strictly above landmark 6 and landmark 12 strictly
  above landmark 10 (smaller y), and CLOSED otherwise; it is never UNDETERMINED and the
  finger test does not throw. The counters are updated by the branch of lines 101 to 123
  that this test selects.
\<close>

theorem C4_raw_signal:
  assumes "12 < length landmarks"
  shows "rawSignal (Resolved (Some (landmarks # others))) =
           Some (if landmark_y (landmarks ! 8) < landmark_y (landmarks ! 6) \<and>
                    landmark_y (landmarks ! 12) < landmark_y (landmarks ! 10)
                 then OPEN else CLOSED) \<and>
         rawSignal (Resolved (Some (landmarks # others))) \<in> {Some OPEN, Some CLOSED} \<and>
         fst (tryBlock onHandPosition c (Resolved (Some (landmarks # others)))) =
           fst (countFrames (landmark_y (landmarks ! 8) < landmark_y (landmarks ! 6) \<and>
                             landmark_y (landmarks ! 12) < landmark_y (landmarks ! 10)) c)"
  using assms
  by (simp add: rawSignal_def fingersOpen_def tryBlock_def handPresent_def Let_def
        split: prod.splits)

theorem C4_raw_signal_witness:
  "12 < length openHand \<and>
   landmark_y (openHand ! 8) < landmark_y (openHand ! 6) \<and>
   landmark_y (openHand ! 12) < landmark_y (openHand ! 10) \<and>
   rawSignal (Resolved (Some [openHand])) = Some OPEN \<and>
   openFrames (fst (tryBlock True mounted (Resolved (Some [openHand])))) = 1"
proof -
  have h: "12 < length openHand"
    by (simp add: openHand_def closedHand_def)
  have y: "landmark_y (openHand ! 8) < landmark_y (openHand ! 6)"
    "landmark_y (openHand ! 12) < landmark_y (openHand ! 10)"
    by (simp_all add: openHand_def closedHand_def)
  show ?thesis
    using C4_raw_signal[OF h, of "[]" True mounted] h y
    by (simp add: countFrames_def mounted_def CONFIDENCE_THRESHOLD_def)
qed



lemma binade_le:
  "e \<le> k \<Longrightarrow> x < 2 powi (k + 1) \<Longrightarrow> binade n e x \<le> k"
proof (induction n arbitrary: e)
  case 0
  then show ?case by simp
next
  case (Suc n)
  show ?case
  proof (cases "x < 2 powi (e + 1)")
    case True
    with Suc.prems show ?thesis by simp
  next
    case False
    then have "(2::real) powi (e + 1) < 2 powi (k + 1)"
      using Suc.prems(2) by linarith
    then have "\<not> k + 1 \<le> e + 1"
      using power_int_increasing[of "k + 1" "e + 1" "2::real"] by auto
    then have "e + 1 \<le> k" by simp
    from Suc.IH[OF this Suc.prems(2)] False show ?thesis by simp
  qed
qed

lemma binade_eq:
  "e \<le> k \<Longrightarrow> k - e \<le> int n \<Longrightarrow> e = k \<or> 2 powi k \<le> x \<Longrightarrow> x < 2 powi (k + 1)
     \<Longrightarrow> binade n e x = k"
proof (induction n arbitrary: e)
  case 0
  then show ?case by simp
next
  case (Suc n)
  show ?case
  proof (cases "e = k")
    case True
    with Suc.prems show ?thesis by simp
  next
    case False
    with Suc.prems have lt: "e < k" and low: "2 powi k \<le> x" by simp_all
    have "(2::real) powi (e + 1) \<le> 2 powi k"
      using lt by (intro power_int_increasing) simp_all
    then have nlt: "\<not> x < 2 powi (e + 1)" using low by linarith
    have "binade n (e + 1) x = k"
      using Suc.IH[of "e + 1"] lt Suc.prems low by simp
    with nlt show ?thesis by simp
  qed
qed

lemma exponent_eq:
  "- 1022 \<le> k \<Longrightarrow> k \<le> 1023 \<Longrightarrow> k = - 1022 \<or> 2 powi k \<le> \<bar>x\<bar> \<Longrightarrow> \<bar>x\<bar> < 2 powi (k + 1)
     \<Longrightarrow> exponent x = k"
  unfolding exponent_def by (rule binade_eq) simp_all

lemma exponent_le:
  "- 1022 \<le> k \<Longrightarrow> \<bar>x\<bar> < 2 powi (k + 1) \<Longrightarrow> exponent x \<le> k"
  unfolding exponent_def by (rule binade_le) simp_all

lemma roundToEven_error: "\<bar>of_int (roundToEven r) - r\<bar> \<le> 1 / 2"
  unfolding roundToEven_def Let_def by (auto simp: abs_if) linarith+


lemma round64_error:
  assumes "\<bar>x\<bar> < 32"
  shows "\<exists>r. round64 x = Num r \<and> \<bar>r - x\<bar> \<le> 1 / 2 ^ 49"
proof -
  define u :: real where "u = 2 powi (exponent x - 52)"
  define r where "r = of_int (roundToEven (x / u)) * u"
  have "exponent x \<le> 4"
    using assms by (intro exponent_le) simp_all
  then have "u \<le> 2 powi (- 48)"
    unfolding u_def by (intro power_int_increasing) simp_all
  then have u48: "u \<le> 1 / 2 ^ 48"
    by (simp add: power_int_minus_divide)
  have upos: "0 < u"
    unfolding u_def by simp
  have "r - x = (of_int (roundToEven (x / u)) - x / u) * u"
    using upos by (simp add: r_def algebra_simps)
  then have "\<bar>r - x\<bar> = \<bar>of_int (roundToEven (x / u)) - x / u\<bar> * u"
    using upos by (simp add: abs_mult)
  also have "\<dots> \<le> (1 / 2) * u"
    using roundToEven_error[of "x / u"] upos by (intro mult_right_mono) simp_all
  also have "\<dots> \<le> 1 / 2 ^ 49"
    using u48 by simp
  finally have err: "\<bar>r - x\<bar> \<le> 1 / 2 ^ 49" .
  have "\<bar>r\<bar> < 33"
    using err assms by (simp add: abs_if split: if_splits)
  moreover have "(33::real) < 2 ^ 1024"
    by simp
  ultimately have "\<not> 2 ^ 1024 \<le> r" "\<not> r \<le> - (2 ^ 1024)"
    by (simp_all add: abs_if split: if_splits)
  then have "round64 x = Num r"
    by (simp add: round64_def Let_def u_def r_def)
  with err show ?thesis by blast
qed

lemma round64_eval:
  assumes "- 1022 \<le> k" and "k \<le> 1022"
    and "k = - 1022 \<or> 2 powi k \<le> \<bar>x\<bar>" and "\<bar>x\<bar> < 2 powi (k + 1)"
  shows "round64 x = Num (of_int (roundToEven (x / 2 powi (k - 52))) * 2 powi (k - 52))"
proof -
  define u :: real where "u = 2 powi (k - 52)"
  define r where "r = of_int (roundToEven (x / u)) * u"
  have e: "exponent x = k"
    using assms by (intro exponent_eq) simp_all
  have upos: "0 < u"
    unfolding u_def by simp
  have "r - x = (of_int (roundToEven (x / u)) - x / u) * u"
    using upos by (simp add: r_def algebra_simps)
  then have "\<bar>r - x\<bar> = \<bar>of_int (roundToEven (x / u)) - x / u\<bar> * u"
    using upos by (simp add: abs_mult)
  also have "\<dots> \<le> (1 / 2) * u"
    using roundToEven_error[of "x / u"] upos by (intro mult_right_mono) simp_all
  finally have err: "\<bar>r - x\<bar> \<le> u / 2" by simp
  have "u \<le> 2 powi (k + 1)"
    unfolding u_def by (intro power_int_increasing) simp_all
  then have "\<bar>r\<bar> < 2 powi (k + 1) + 2 powi (k + 1)"
    using err assms(4) upos by (simp add: abs_if split: if_splits)
  also have "\<dots> = 2 powi (k + 2)"
    by (simp add: power_int_add)
  also have "\<dots> \<le> 2 powi 1024"
    using assms(2) by (intro power_int_increasing) simp_all
  finally have "\<bar>r\<bar> < 2 ^ 1024"
    by simp
  then have "\<not> 2 ^ 1024 \<le> r" "\<not> r \<le> - (2 ^ 1024)"
    by (simp_all add: abs_if split: if_splits)
  then show ?thesis
    by (simp add: round64_def Let_def e u_def r_def)
qed

lemma round64_0: "round64 0 = Num 0"
  using round64_eval[of "- 1022" 0] by (simp add: roundToEven_def)

lemma round64_1: "round64 1 = Num 1"
  using round64_eval[of 0 1] by (simp add: roundToEven_def power_int_minus_divide)

lemma foldl_add64_error:
  assumes "\<forall>v\<in>set vs. \<bar>v\<bar> \<le> 1"
    and "\<bar>a - A\<bar> \<le> real k / 2 ^ 49" and "\<bar>A\<bar> \<le> real k" and "k + length vs \<le> 31"
  shows "\<exists>s. foldl add64 (Num a) vs = Num s \<and>
             \<bar>s - (A + sum_list vs)\<bar> \<le> real (k + length vs) / 2 ^ 49 \<and>
             \<bar>A + sum_list vs\<bar> \<le> real (k + length vs)"
  using assms
proof (induction vs arbitrary: a A k)
  case Nil
  then show ?case by simp
next
  case (Cons v vs)
  have v: "\<bar>v\<bar> \<le> 1" and rest: "\<forall>v\<in>set vs. \<bar>v\<bar> \<le> 1"
    using Cons.prems(1) by simp_all
  have k30: "k \<le> 30"
    using Cons.prems(4) by simp
  then have "real k / 2 ^ 49 \<le> 30 / 2 ^ 49"
    by (simp add: divide_right_mono)
  then have small: "real k / 2 ^ 49 < 1"
    by simp
  have "real k \<le> 30"
    using k30 by simp
  then have "\<bar>a + v\<bar> < 32"
    using Cons.prems(2,3) v small by (simp add: abs_if split: if_splits)
  then obtain a' where a': "round64 (a + v) = Num a'" and e: "\<bar>a' - (a + v)\<bar> \<le> 1 / 2 ^ 49"
    using round64_error by blast
  have err: "\<bar>a' - (A + v)\<bar> \<le> real (Suc k) / 2 ^ 49"
  proof -
    have "\<bar>a' - (A + v)\<bar> \<le> \<bar>a' - (a + v)\<bar> + \<bar>a - A\<bar>"
      by simp
    also have "\<dots> \<le> 1 / 2 ^ 49 + real k / 2 ^ 49"
      using e Cons.prems(2) by simp
    also have "\<dots> = real (Suc k) / 2 ^ 49"
      by (simp add: add_divide_distrib)
    finally show ?thesis .
  qed
  have bnd: "\<bar>A + v\<bar> \<le> real (Suc k)"
    using Cons.prems(3) v by simp
  have len: "Suc k + length vs \<le> 31"
    using Cons.prems(4) by simp
  from Cons.IH[OF rest err bnd len] a' show ?case
    by (simp add: add64_def add.assoc)
qed

lemma mean64_error:
  assumes "vs \<noteq> []" and "length vs \<le> 31" and "\<forall>v\<in>set vs. \<bar>v\<bar> \<le> 1"
  shows "near (div64 (foldl add64 (Num 0) vs) (length vs)) (sum_list vs / real (length vs)) (1 / 2 ^ 48)"
proof -
  define n where "n = length vs"
  have n: "0 < n" "n \<le> 31"
    using assms(1,2) by (simp_all add: n_def)
  obtain s where s: "foldl add64 (Num 0) vs = Num s"
    and e: "\<bar>s - sum_list vs\<bar> \<le> real n / 2 ^ 49" and b: "\<bar>sum_list vs\<bar> \<le> real n"
    using foldl_add64_error[OF assms(3), of 0 0 0] assms(2) by (auto simp: n_def)
  have e': "\<bar>s / real n - sum_list vs / real n\<bar> \<le> 1 / 2 ^ 49"
  proof -
    have "\<bar>s / real n - sum_list vs / real n\<bar> = \<bar>s - sum_list vs\<bar> / real n"
      using n by (simp add: diff_divide_distrib [symmetric])
    also have "\<dots> \<le> (real n / 2 ^ 49) / real n"
      using e n by (intro divide_right_mono) simp_all
    also have "\<dots> = 1 / 2 ^ 49"
      using n by simp
    finally show ?thesis .
  qed
  have "\<bar>sum_list vs / real n\<bar> \<le> 1"
    using b n by (simp add: abs_if field_simps split: if_splits)
  moreover have "(1::real) / 2 ^ 49 \<le> 1"
    by simp
  ultimately have "\<bar>s / real n\<bar> < 32"
    using e' by linarith
  then obtain p where p: "round64 (s / real n) = Num p" and ep: "\<bar>p - s / real n\<bar> \<le> 1 / 2 ^ 49"
    using round64_error by blast
  have "\<bar>p - sum_list vs / real n\<bar> \<le> \<bar>p - s / real n\<bar> + \<bar>s / real n - sum_list vs / real n\<bar>"
    by simp
  also have "\<dots> \<le> 1 / 2 ^ 49 + 1 / 2 ^ 49"
    using ep e' by simp
  also have "\<dots> = 1 / 2 ^ 48"
    by simp
  finally have "\<bar>p - sum_list vs / real n\<bar> \<le> 1 / 2 ^ 48" .
  then show ?thesis
    using n p s by (simp add: near_def div64_def n_def)
qed

lemma centroid_map:
  "centroid landmarks =
     (div64 (foldl add64 (Num 0) (map landmark_x landmarks)) (length landmarks),
      div64 (foldl add64 (Num 0) (map landmark_y landmarks)) (length landmarks))"
  by (simp add: centroid_def foldl_map)

lemma near_both:
  assumes "near v m eps" and "near w m eps"
  shows "nearEach v w (2 * eps)"
  using assms by (auto simp: near_def nearEach_def split: number.splits)

lemma pointerUpdates_simps:
  "pointerUpdates [] = []"
  "pointerUpdates (e # es) =
     (case e of OnHandPosition px py d \<Rightarrow> [(px, py, d)] | _ \<Rightarrow> []) @ pointerUpdates es"
  "pointerUpdates (xs @ ys) = pointerUpdates xs @ pointerUpdates ys"
  by (simp_all add: pointerUpdates_def)

lemma pointerUpdates_handPresent:
  "pointerUpdates (snd (handPresent True c landmarks others)) =
     [(fst (centroid landmarks), snd (centroid landmarks), True)]"
proof -
  have drawn: "pointerUpdates (concat (map (\<lambda>h. [DrawConnectors h, DrawLandmarks h]) hs)) = []" for hs
    by (induction hs) (simp_all add: pointerUpdates_simps)
  have cf: "pointerUpdates (snd (countFrames b c)) = []" for b
    by (simp add: countFrames_def pointerUpdates_simps Let_def)
  have cb: "pointerUpdates catchBlock = []"
    by (simp add: catchBlock_def pointerUpdates_simps)
  show ?thesis
    by (cases "fingersOpen landmarks")
       (simp_all add: handPresent_def split_beta pointerUpdates_simps drawn cf cb)
qed

lemma foldl_add64_zeros:
  "add64 a 0 = a \<Longrightarrow> foldl add64 a (replicate n 0) = a"
  by (induction n) simp_all

lemma round64_examples:
  "round64 0 = Num 0"
  "round64 1 = Num 1"
  "round64 (1 / 2 ^ 53) = Num (1 / 2 ^ 53)"
  "round64 (1 / 2 ^ 52) = Num (1 / 2 ^ 52)"
  "round64 (1 + 1 / 2 ^ 53) = Num 1"
  "round64 (1 + 1 / 2 ^ 52) = Num (1 + 1 / 2 ^ 52)"
  "round64 (1 / 21) = Num (6862628003612184 / 2 ^ 57)"
  "round64 ((1 + 1 / 2 ^ 52) / 21) = Num (6862628003612186 / 2 ^ 57)"
  using round64_eval[of "- 1022" 0] round64_eval[of 0 1]
    round64_eval[of "- 53" "1 / 2 ^ 53"] round64_eval[of "- 52" "1 / 2 ^ 52"]
    round64_eval[of 0 "1 + 1 / 2 ^ 53"] round64_eval[of 0 "1 + 1 / 2 ^ 52"]
    round64_eval[of "- 5" "1 / 21"] round64_eval[of "- 5" "(1 + 1 / 2 ^ 52) / 21"]
  by (simp_all add: roundToEven_def power_int_minus_divide)

lemma centroid_edgeHand:
  "centroid edgeHand = (Num (6862628003612184 / 2 ^ 57), Num 0)"
  "centroid edgeHandReordered = (Num (6862628003612186 / 2 ^ 57), Num 0)"
  using round64_examples
  by (simp_all add: centroid_map edgeHand_def edgeHandReordered_def add64_def div64_def
        foldl_add64_zeros)

text \<open>
  C5 as stated fails: the additions of lines 82 and 83 round, so the pointer is not the
  exact mean and depends on the order of the landmarks. The hand \<open>edgeHand\<close> has the
  x coordinates 1, 2^-53, 2^-53 and then 0: adding 2^-53 to 1 gives 1 both times (the
  exact sum lies halfway between two doubles and the tie goes to 1), so the sum is 1 and
  the pointer is the double nearest to 1/21. With the same landmarks in the order 2^-53,
  2^-53, 1 the sum is 1 + 2^-52 and the pointer is two units in the last place larger.
  The exact mean is (1 + 2^-52) / 21 in both cases.
\<close>

theorem C5_counterexample:
  "mset edgeHandReordered = mset edgeHand \<and> length edgeHand = 21 \<and>
   pointerUpdates (snd (tryBlock True mounted (Resolved (Some [edgeHand])))) =
     [(Num (6862628003612184 / 2 ^ 57), Num 0, True)] \<and>
   pointerUpdates (snd (tryBlock True mounted (Resolved (Some [edgeHandReordered])))) =
     [(Num (6862628003612186 / 2 ^ 57), Num 0, True)] \<and>
   pointerUpdates (snd (tryBlock True mounted (Resolved (Some [edgeHandReordered])))) \<noteq>
     pointerUpdates (snd (tryBlock True mounted (Resolved (Some [edgeHand])))) \<and>
   sum_list (map landmark_x edgeHand) / real (length edgeHand) = (1 + 1 / 2 ^ 52) / 21 \<and>
   Num (6862628003612184 / 2 ^ 57) \<noteq> Num ((1 + 1 / 2 ^ 52) / 21)"
  by (simp add: tryBlock_def pointerUpdates_handPresent centroid_edgeHand)
     (simp add: edgeHand_def edgeHandReordered_def sum_list_replicate)

text \<open>
  C5, amended. With the callback onHandPosition given, a cycle whose result has no hand
  reports exactly one pointer update, (0.5, 0.5, false), whatever the refs held before.
  A cycle with a non-empty landmark array for the first hand reports exactly one pointer
  update, with detected = true: each coordinate is the sum of that coordinate over all
  landmarks, added in array order in double arithmetic, divided by their number. For
  normalized coordinates (at most 1 in magnitude) and at most 31 landmarks (the detector
  gives 21) each coordinate is within 2^-48 of the exact arithmetic mean, and the same
  landmarks in another order give a pointer within 2^-47 of it in each coordinate.
\<close>

theorem C5_pointer_rounded:
  assumes "landmarks \<noteq> []" and "length landmarks \<le> 31"
    and "\<forall>l\<in>set landmarks. \<bar>landmark_x l\<bar> \<le> 1 \<and> \<bar>landmark_y l\<bar> \<le> 1"
    and "mset landmarks' = mset landmarks"
  shows "pointerUpdates (snd (tryBlock True c (Resolved None))) = [(Num 0.5, Num 0.5, False)] \<and>
         pointerUpdates (snd (tryBlock True c (Resolved (Some [])))) = [(Num 0.5, Num 0.5, False)] \<and>
         pointerUpdates (snd (tryBlock True c (Resolved (Some (landmarks # others))))) =
           [(div64 (foldl add64 (Num 0) (map landmark_x landmarks)) (length landmarks),
             div64 (foldl add64 (Num 0) (map landmark_y landmarks)) (length landmarks), True)] \<and>
         near (div64 (foldl add64 (Num 0) (map landmark_x landmarks)) (length landmarks))
           (sum_list (map landmark_x landmarks) / real (length landmarks)) (1 / 2 ^ 48) \<and>
         near (div64 (foldl add64 (Num 0) (map landmark_y landmarks)) (length landmarks))
           (sum_list (map landmark_y landmarks) / real (length landmarks)) (1 / 2 ^ 48) \<and>
         pointerUpdates (snd (tryBlock True c' (Resolved (Some (landmarks' # others'))))) =
           [(div64 (foldl add64 (Num 0) (map landmark_x landmarks')) (length landmarks'),
             div64 (foldl add64 (Num 0) (map landmark_y landmarks')) (length landmarks'), True)] \<and>
         nearEach (div64 (foldl add64 (Num 0) (map landmark_x landmarks')) (length landmarks'))
           (div64 (foldl add64 (Num 0) (map landmark_x landmarks)) (length landmarks)) (1 / 2 ^ 47) \<and>
         nearEach (div64 (foldl add64 (Num 0) (map landmark_y landmarks')) (length landmarks'))
           (div64 (foldl add64 (Num 0) (map landmark_y landmarks)) (length landmarks)) (1 / 2 ^ 47)"
proof -
  have none: "pointerUpdates (snd (noHand True c)) = [(Num 0.5, Num 0.5, False)]"
    by (simp add: noHand_def pointerUpdates_def)
  have ptr: "pointerUpdates (snd (tryBlock True d (Resolved (Some (ls # os))))) =
           [(div64 (foldl add64 (Num 0) (map landmark_x ls)) (length ls),
             div64 (foldl add64 (Num 0) (map landmark_y ls)) (length ls), True)]" for d ls os
    by (simp add: tryBlock_def pointerUpdates_handPresent centroid_map)
  have len: "length landmarks' = length landmarks"
    using assms(4) by (metis size_mset)
  have set: "set landmarks' = set landmarks"
    using assms(4) by (metis set_mset_mset)
  have sums: "sum_list (map f landmarks') = sum_list (map f landmarks)"
    for f :: "NormalizedLandmark \<Rightarrow> real"
    using assms(4) by (metis mset_map sum_mset_sum_list)
  have x: "near (div64 (foldl add64 (Num 0) (map landmark_x landmarks)) (length landmarks))
           (sum_list (map landmark_x landmarks) / real (length landmarks)) (1 / 2 ^ 48)"
    using mean64_error[of "map landmark_x landmarks"] assms(1,2,3) by simp
  have y: "near (div64 (foldl add64 (Num 0) (map landmark_y landmarks)) (length landmarks))
           (sum_list (map landmark_y landmarks) / real (length landmarks)) (1 / 2 ^ 48)"
    using mean64_error[of "map landmark_y landmarks"] assms(1,2,3) by simp
  have ne': "landmarks' \<noteq> []" and le': "length landmarks' \<le> 31"
    and b': "\<forall>l\<in>set landmarks'. \<bar>landmark_x l\<bar> \<le> 1 \<and> \<bar>landmark_y l\<bar> \<le> 1"
    using assms(1,2,3) len set by auto
  have "near (div64 (foldl add64 (Num 0) (map landmark_x landmarks')) (length landmarks'))
           (sum_list (map landmark_x landmarks') / real (length landmarks')) (1 / 2 ^ 48)"
    using mean64_error[of "map landmark_x landmarks'"] ne' le' b' by simp
  then have x': "near (div64 (foldl add64 (Num 0) (map landmark_x landmarks')) (length landmarks'))
           (sum_list (map landmark_x landmarks) / real (length landmarks)) (1 / 2 ^ 48)"
    by (simp only: sums len)
  have "near (div64 (foldl add64 (Num 0) (map landmark_y landmarks')) (length landmarks'))
           (sum_list (map landmark_y landmarks') / real (length landmarks')) (1 / 2 ^ 48)"
    using mean64_error[of "map landmark_y landmarks'"] ne' le' b' by simp
  then have y': "near (div64 (foldl add64 (Num 0) (map landmark_y landmarks')) (length landmarks'))
           (sum_list (map landmark_y landmarks) / real (length landmarks)) (1 / 2 ^ 48)"
    by (simp only: sums len)
  have ex: "nearEach (div64 (foldl add64 (Num 0) (map landmark_x landmarks')) (length landmarks'))
           (div64 (foldl add64 (Num 0) (map landmark_x landmarks)) (length landmarks)) (1 / 2 ^ 47)"
    using near_both[OF x' x] by simp
  have ey: "nearEach (div64 (foldl add64 (Num 0) (map landmark_y landmarks')) (length landmarks'))
           (div64 (foldl add64 (Num 0) (map landmark_y landmarks)) (length landmarks)) (1 / 2 ^ 47)"
    using near_both[OF y' y] by simp
  have n1: "pointerUpdates (snd (tryBlock True c (Resolved None))) = [(Num 0.5, Num 0.5, False)]"
    and n2: "pointerUpdates (snd (tryBlock True c (Resolved (Some [])))) = [(Num 0.5, Num 0.5, False)]"
    using none by (simp_all add: tryBlock_def)
  show ?thesis
    by (intro conjI n1 n2 ptr x y ex ey)
qed

theorem C5_pointer_rounded_witness:
  "openHand \<noteq> [] \<and> length openHand \<le> 31 \<and>
   list_all (\<lambda>l. \<bar>landmark_x l\<bar> \<le> 1 \<and> \<bar>landmark_y l\<bar> \<le> 1) openHand \<and>
   mset (rev openHand) = mset openHand \<and>
   pointerUpdates (snd (tryBlock True mounted (Resolved None))) = [(Num (1 / 2), Num (1 / 2), False)] \<and>
   near (div64 (foldl add64 (Num 0) (map landmark_x openHand)) (length openHand)) (1 / 2) (1 / 2 ^ 48) \<and>
   near (div64 (foldl add64 (Num 0) (map landmark_y openHand)) (length openHand)) (10 / 21) (1 / 2 ^ 48) \<and>
   nearEach (div64 (foldl add64 (Num 0) (map landmark_y (rev openHand))) (length (rev openHand)))
     (div64 (foldl add64 (Num 0) (map landmark_y openHand)) (length openHand)) (1 / 2 ^ 47)"
proof -
  have hand: "openHand = replicate 8 (Landmark 0.5 0.5) @ [Landmark 0.5 0.25]
      @ replicate 3 (Landmark 0.5 0.5) @ [Landmark 0.5 0.25] @ replicate 8 (Landmark 0.5 0.5)"
    by (simp add: openHand_def closedHand_def numeral_eq_Suc)
  have h1: "openHand \<noteq> []" and h2: "length openHand \<le> 31"
    by (simp_all add: hand)
  have h3: "\<forall>l\<in>set openHand. \<bar>landmark_x l\<bar> \<le> 1 \<and> \<bar>landmark_y l\<bar> \<le> 1"
    by (auto simp: hand)
  have h4: "mset (rev openHand) = mset openHand"
    by simp
  have sx: "sum_list (map landmark_x openHand) = 21 / 2"
    and sy: "sum_list (map landmark_y openHand) = 10"
    and len: "length openHand = 21"
    by (simp_all add: hand sum_list_replicate)
  show ?thesis
    using C5_pointer_rounded[OF h1 h2 h3 h4, where c = mounted and others = "[]"
          and c' = mounted and others' = "[]"] h1 h2 h3
    by (simp add: sx sy len list_all_iff)
qed

lemma modeChanges_simps:
  "modeChanges [] = []"
  "modeChanges (e # es) = (case e of OnModeChange m \<Rightarrow> [m] | _ \<Rightarrow> []) @ modeChanges es"
  by (simp_all add: modeChanges_def)

text \<open>
  C6 as stated fails: while FORMED is active, a cycle with a CLOSED signal does not leave
  closedFrames at 0. From the freshly mounted component (mode FORMED, both counters 0) one
  closed hand gives closedFrames = 1.
\<close>

theorem C6_counterexample:
  "rawSignal (Resolved (Some [closedHand])) = Some CLOSED \<and>
   modeRef mounted = FORMED \<and> closedFrames mounted = 0 \<and>
   closedFrames (fst (tryBlock True mounted (Resolved (Some [closedHand])))) = 1 \<and>
   closedFrames (fst (tryBlock True mounted (Resolved (Some [closedHand])))) \<noteq> 0"
  by (simp add: rawSignal_examples tryBlock_signal(2)[OF rawSignal_examples(2)]
        countFrames_def mounted_def CONFIDENCE_THRESHOLD_def)

text \<open>
  C6, amended. On every cycle: an OPEN signal sets closedFrames to 0, a CLOSED signal sets
  openFrames to 0, a cycle with no hand sets both to 0, and a counter that has just caused
  a mode change is set to 0. A counter is not reset because the mode it would cause is
  already active: with FORMED in modeRef a CLOSED signal adds 1 to closedFrames, and with
  CHAOS in modeRef an OPEN signal adds 1 to openFrames.
\<close>

theorem C6_counter_resets:
  "(rawSignal det = Some OPEN \<longrightarrow> closedFrames (fst (tryBlock onHandPosition c det)) = 0) \<and>
   (rawSignal det = Some CLOSED \<longrightarrow> openFrames (fst (tryBlock onHandPosition c det)) = 0) \<and>
   (rawSignal det = Some UNDETERMINED \<longrightarrow>
      openFrames (fst (tryBlock onHandPosition c det)) = 0 \<and>
      closedFrames (fst (tryBlock onHandPosition c det)) = 0) \<and>
   (rawSignal det = Some OPEN \<and> modeChanges (snd (tryBlock onHandPosition c det)) \<noteq> [] \<longrightarrow>
      openFrames (fst (tryBlock onHandPosition c det)) = 0) \<and>
   (rawSignal det = Some CLOSED \<and> modeChanges (snd (tryBlock onHandPosition c det)) \<noteq> [] \<longrightarrow>
      closedFrames (fst (tryBlock onHandPosition c det)) = 0) \<and>
   (rawSignal det = Some CLOSED \<and> modeRef c = FORMED \<longrightarrow>
      closedFrames (fst (tryBlock onHandPosition c det)) = closedFrames c + 1) \<and>
   (rawSignal det = Some OPEN \<and> modeRef c = CHAOS \<longrightarrow>
      openFrames (fst (tryBlock onHandPosition c det)) = openFrames c + 1)"
proof -
  have o: "rawSignal det = Some OPEN \<Longrightarrow>
      closedFrames (fst (tryBlock onHandPosition c det)) = 0 \<and>
      (modeChanges (snd (tryBlock onHandPosition c det)) \<noteq> [] \<longrightarrow>
         openFrames (fst (tryBlock onHandPosition c det)) = 0) \<and>
      (modeRef c = CHAOS \<longrightarrow> openFrames (fst (tryBlock onHandPosition c det)) = openFrames c + 1)"
    using tryBlock_signal(1)[of det onHandPosition c]
    by (simp add: countFrames_def modeChanges_def Let_def)
  have cl: "rawSignal det = Some CLOSED \<Longrightarrow>
      openFrames (fst (tryBlock onHandPosition c det)) = 0 \<and>
      (modeChanges (snd (tryBlock onHandPosition c det)) \<noteq> [] \<longrightarrow>
         closedFrames (fst (tryBlock onHandPosition c det)) = 0) \<and>
      (modeRef c = FORMED \<longrightarrow> closedFrames (fst (tryBlock onHandPosition c det)) = closedFrames c + 1)"
    using tryBlock_signal(2)[of det onHandPosition c]
    by (simp add: countFrames_def modeChanges_def Let_def)
  have u: "rawSignal det = Some UNDETERMINED \<Longrightarrow>
      openFrames (fst (tryBlock onHandPosition c det)) = 0 \<and>
      closedFrames (fst (tryBlock onHandPosition c det)) = 0"
    using tryBlock_signal(3)[of det onHandPosition c] by simp
  from o cl u show ?thesis by blast
qed

theorem C6_counter_resets_witness:
  "rawSignal (Resolved (Some [openHand])) = Some OPEN \<and>
   rawSignal (Resolved (Some [closedHand])) = Some CLOSED \<and>
   rawSignal (Resolved None) = Some UNDETERMINED \<and>
   modeRef mounted = FORMED \<and>
   modeRef (mounted\<lparr>modeRef := CHAOS, closedFrames := 5\<rparr>) = CHAOS \<and>
   closedFrames (fst (tryBlock True mounted (Resolved (Some [closedHand])))) = closedFrames mounted + 1 \<and>
   openFrames (fst (tryBlock True (mounted\<lparr>modeRef := CHAOS, closedFrames := 5\<rparr>)
                      (Resolved (Some [openHand])))) = 1 \<and>
   closedFrames (fst (tryBlock True (mounted\<lparr>modeRef := CHAOS, closedFrames := 5\<rparr>)
                        (Resolved (Some [openHand])))) = 0 \<and>
   modeChanges (snd (tryBlock True (mounted\<lparr>modeRef := CHAOS, closedFrames := 5\<rparr>)
                       (Resolved (Some [closedHand])))) \<noteq> [] \<and>
   closedFrames (fst (tryBlock True (mounted\<lparr>modeRef := CHAOS, closedFrames := 5\<rparr>)
                        (Resolved (Some [closedHand])))) = 0 \<and>
   modeChanges (snd (tryBlock True (mounted\<lparr>openFrames := 5\<rparr>) (Resolved (Some [openHand])))) \<noteq> [] \<and>
   openFrames (fst (tryBlock True (mounted\<lparr>openFrames := 5\<rparr>) (Resolved (Some [openHand])))) = 0 \<and>
   openFrames (fst (tryBlock True (mounted\<lparr>openFrames := 5\<rparr>) (Resolved None))) = 0 \<and>
   closedFrames (fst (tryBlock True (mounted\<lparr>openFrames := 5\<rparr>) (Resolved None))) = 0"
proof -
  have u: "rawSignal (Resolved None) = Some UNDETERMINED"
    by (simp add: rawSignal_def)
  have m: "modeRef mounted = FORMED"
    "modeRef (mounted\<lparr>modeRef := CHAOS, closedFrames := 5\<rparr>) = CHAOS"
    "openFrames (mounted\<lparr>modeRef := CHAOS, closedFrames := 5\<rparr>) = 0"
    by (simp_all add: mounted_def)
  have e1: "modeChanges (snd (tryBlock True (mounted\<lparr>modeRef := CHAOS, closedFrames := 5\<rparr>)
                       (Resolved (Some [closedHand])))) \<noteq> []"
    using tryBlock_signal(2)[OF rawSignal_examples(2), of True "mounted\<lparr>modeRef := CHAOS, closedFrames := 5\<rparr>"]
    by (simp add: countFrames_def modeChanges_simps mounted_def CONFIDENCE_THRESHOLD_def)
  have e2: "modeChanges (snd (tryBlock True (mounted\<lparr>openFrames := 5\<rparr>)
                       (Resolved (Some [openHand])))) \<noteq> []"
    using tryBlock_signal(1)[OF rawSignal_examples(1), of True "mounted\<lparr>openFrames := 5\<rparr>"]
    by (simp add: countFrames_def modeChanges_simps mounted_def CONFIDENCE_THRESHOLD_def)
  show ?thesis
    using C6_counter_resets[of "Resolved (Some [closedHand])" True mounted]
      C6_counter_resets[of "Resolved (Some [openHand])" True "mounted\<lparr>modeRef := CHAOS, closedFrames := 5\<rparr>"]
      C6_counter_resets[of "Resolved (Some [closedHand])" True "mounted\<lparr>modeRef := CHAOS, closedFrames := 5\<rparr>"]
      C6_counter_resets[of "Resolved (Some [openHand])" True "mounted\<lparr>openFrames := 5\<rparr>"]
      C6_counter_resets[of "Resolved None" True "mounted\<lparr>openFrames := 5\<rparr>"]
      rawSignal_examples(1,2) u m e1 e2
    by simp
qed

lemma tryBlock_frame:
  "tryBlock hp (c\<lparr>animationFrameIdRef := a\<rparr>) det =
     ((fst (tryBlock hp c det))\<lparr>animationFrameIdRef := a\<rparr>, snd (tryBlock hp c det))"
  by (simp add: tryBlock_def handPresent_def noHand_def countFrames_def Let_def split_beta
        split: detection.splits option.splits list.splits)

lemma predictWebcam_ready:
  assumes "ready w"
  shows "predictWebcam hp det w =
           w\<lparr>controller := fst (tryBlock hp (controller w) det),
             timeouts := timeouts w + 1,
             calls := calls w @ [ClearRect] @ snd (tryBlock hp (controller w) det) @ [SetTimeout]\<rparr>"
  using assms
  by (auto simp: ready_def predictWebcam_def split_beta split: option.splits)

text \<open>
  C7 as stated fails: a cycle whose detection call is rejected reports no pointer update at
  all. In the running loop (timeout pending, then the frame fires with a rejected
  detection) the calls made since mount contain no call of onHandPosition.
\<close>

theorem C7_counterexample:
  "ready (fire True TimeoutFires waiting) \<and>
   frames (fire True TimeoutFires waiting) = [2] \<and>
   calls (fire True (FrameFires 2 Rejected) (fire True TimeoutFires waiting)) =
     [RequestAnimationFrame 2, ClearRect, ConsoleError, ClearRect, SetTimeout] \<and>
   pointerUpdates (calls (fire True (FrameFires 2 Rejected) (fire True TimeoutFires waiting))) = [] \<and>
   pointerUpdates (calls (fire True (FrameFires 2 Rejected) (fire True TimeoutFires waiting)))
     \<noteq> [(Num 0.5, Num 0.5, False)]"
  by (simp add: ready_def fire_def scheduleFrame_def predictWebcam_def tryBlock_def catchBlock_def
        waiting_def running_def mounted_def pointerUpdates_def)

text \<open>
  C7, amended. When the guards pass and the detection call is rejected, the cycle ends
  normally: it clears the canvas, logs the error, clears the canvas again and sets the
  timeout for the next cycle; it makes no other call, so no pointer update and no mode
  change; no ref changes, so the frame counters keep their values. When that timeout and
  then the requested frame fire, the next cycle runs the try block on its own detection
  result with the refs as they were before the failure.
\<close>

theorem C7_rejected_detection:
  assumes "ready w"
  shows "controller (predictWebcam onHandPosition Rejected w) = controller w \<and>
         calls (predictWebcam onHandPosition Rejected w) =
           calls w @ [ClearRect, ConsoleError, ClearRect, SetTimeout] \<and>
         timeouts (predictWebcam onHandPosition Rejected w) = timeouts w + 1 \<and>
         frames (predictWebcam onHandPosition Rejected w) = frames w \<and>
         lastHandle w + 1 \<in>
           set (frames (fire onHandPosition TimeoutFires (predictWebcam onHandPosition Rejected w))) \<and>
         calls (fire onHandPosition (FrameFires (lastHandle w + 1) det)
                 (fire onHandPosition TimeoutFires (predictWebcam onHandPosition Rejected w))) =
           calls w @ [ClearRect, ConsoleError, ClearRect, SetTimeout, RequestAnimationFrame (lastHandle w + 1)]
           @ [ClearRect] @ snd (tryBlock onHandPosition (controller w) det) @ [SetTimeout] \<and>
         controller (fire onHandPosition (FrameFires (lastHandle w + 1) det)
                 (fire onHandPosition TimeoutFires (predictWebcam onHandPosition Rejected w))) =
           (fst (tryBlock onHandPosition (controller w) det))\<lparr>animationFrameIdRef := Some (lastHandle w + 1)\<rparr>"
proof -
  define w1 where "w1 = predictWebcam onHandPosition Rejected w"
  define w2 where "w2 = fire onHandPosition TimeoutFires w1"
  define h where "h = lastHandle w + 1"
  have w1: "w1 = w\<lparr>timeouts := timeouts w + 1,
                    calls := calls w @ [ClearRect, ConsoleError, ClearRect, SetTimeout]\<rparr>"
    unfolding w1_def using predictWebcam_ready[OF assms, of onHandPosition Rejected]
    by (simp add: tryBlock_def catchBlock_def)
  have w2: "w2 = w\<lparr>controller := (controller w)\<lparr>animationFrameIdRef := Some h\<rparr>,
                    frames := frames w @ [h],
                    lastHandle := h,
                    calls := calls w @ [ClearRect, ConsoleError, ClearRect, SetTimeout,
                                        RequestAnimationFrame h]\<rparr>"
    unfolding w2_def h_def by (simp add: w1 fire_def scheduleFrame_def Let_def)
  have r2: "ready (w2\<lparr>frames := removeAll h (frames w2)\<rparr>)"
    using assms by (simp add: w2 ready_def)
  have "h \<in> set (frames w2)"
    by (simp add: w2)
  then have w3: "fire onHandPosition (FrameFires h det) w2 =
            predictWebcam onHandPosition det (w2\<lparr>frames := removeAll h (frames w2)\<rparr>)"
    by (simp add: fire_def)
  have "controller w1 = controller w \<and>
        calls w1 = calls w @ [ClearRect, ConsoleError, ClearRect, SetTimeout] \<and>
        timeouts w1 = timeouts w + 1 \<and>
        frames w1 = frames w \<and>
        h \<in> set (frames w2) \<and>
        calls (fire onHandPosition (FrameFires h det) w2) =
          calls w @ [ClearRect, ConsoleError, ClearRect, SetTimeout, RequestAnimationFrame h]
          @ [ClearRect] @ snd (tryBlock onHandPosition (controller w) det) @ [SetTimeout] \<and>
        controller (fire onHandPosition (FrameFires h det) w2) =
          (fst (tryBlock onHandPosition (controller w) det))\<lparr>animationFrameIdRef := Some h\<rparr>"
    unfolding w3 predictWebcam_ready[OF r2]
    by (simp add: w1 w2 tryBlock_frame)
  then show ?thesis
    unfolding w1_def w2_def h_def w1_def .
qed

theorem C7_rejected_detection_witness:
  "ready (fire True TimeoutFires waiting) \<and>
   openFrames (controller (predictWebcam True Rejected
       ((fire True TimeoutFires waiting)\<lparr>controller := running\<lparr>openFrames := 4\<rparr>\<rparr>))) = 4 \<and>
   calls (predictWebcam True Rejected
       ((fire True TimeoutFires waiting)\<lparr>controller := running\<lparr>openFrames := 4\<rparr>\<rparr>)) =
     [RequestAnimationFrame 2, ClearRect, ConsoleError, ClearRect, SetTimeout]"
proof -
  have r: "ready ((fire True TimeoutFires waiting)\<lparr>controller := running\<lparr>openFrames := 4\<rparr>\<rparr>)"
    by (simp add: ready_def fire_def scheduleFrame_def waiting_def running_def mounted_def)
  have r0: "ready (fire True TimeoutFires waiting)"
    by (simp add: ready_def fire_def scheduleFrame_def waiting_def running_def mounted_def)
  show ?thesis
    using C7_rejected_detection[OF r, of True] r0
    by (simp add: fire_def scheduleFrame_def waiting_def running_def mounted_def)
qed

text \<open>
  C8 fails on the code when the loop waits for its timeout at the moment of cleanup. The
  loop has finished a cycle (timeout pending, no frame pending, animationFrameIdRef holds
  the handle 1 of the frame that already ran). Cleanup cancels handle 1 and closes the
  detector, but the timeout stays pending. When it fires it requests frame 2, and when
  frame 2 fires predictWebcam runs, finds no video element and no detector and requests
  frame 3: the loop goes on. When cleanup comes while the frame is pending instead (last
  two conjuncts), the frame is cancelled and nothing is left pending.
\<close>

theorem C8_timeout_survives_cleanup:
  "timeouts (fire True Unmount waiting) = 1 \<and>
   frames (fire True Unmount waiting) = [] \<and>
   handLandmarkerRef (controller (fire True Unmount waiting)) = None \<and>
   frames (fire True TimeoutFires (fire True Unmount waiting)) = [2] \<and>
   frames (fire True (FrameFires 2 Rejected) (fire True TimeoutFires (fire True Unmount waiting))) = [3] \<and>
   calls (fire True (FrameFires 2 Rejected) (fire True TimeoutFires (fire True Unmount waiting))) =
     [CancelAnimationFrame 1, Close 7, RequestAnimationFrame 2, RequestAnimationFrame 3] \<and>
   frames (fire True Unmount (fire True TimeoutFires waiting)) = [] \<and>
   timeouts (fire True Unmount (fire True TimeoutFires waiting)) = 0"
  by (simp add: fire_def cleanup_def scheduleFrame_def predictWebcam_def
        waiting_def running_def mounted_def Let_def)

lemma releases_append: "releases (xs @ ys) = releases xs @ releases ys"
  by (simp add: releases_def)

lemma cancels_append: "cancels (xs @ ys) = cancels xs @ cancels ys"
  by (simp add: cancels_def)

lemma releases_TrackStop: "releases (map TrackStop stream) = map TrackStop stream"
  by (induction stream) (simp_all add: releases_def)

lemma cancels_TrackStop: "cancels (map TrackStop stream) = []"
  by (induction stream) (simp_all add: cancels_def)

lemma cleanup_calls:
  "calls (cleanup w) =
     calls w
     @ (case animationFrameIdRef (controller w) of
          None \<Rightarrow> [] | Some h \<Rightarrow> if h = 0 then [] else [CancelAnimationFrame h])
     @ (case handLandmarkerRef (controller w) of None \<Rightarrow> [] | Some landmarker \<Rightarrow> [Close landmarker])
     @ (case videoRef (controller w) of
          None \<Rightarrow> []
        | Some v \<Rightarrow> (case srcObject v of None \<Rightarrow> [] | Some stream \<Rightarrow> map TrackStop stream))"
  by (simp add: cleanup_def Let_def split: option.splits)

lemma cleanup_controller:
  "controller (cleanup w) =
     (controller w)\<lparr>handLandmarkerRef := None,
                    videoRef := map_option (\<lambda>v. v\<lparr>srcObject := None\<rparr>) (videoRef (controller w))\<rparr>"
  by (simp add: cleanup_def Let_def split: option.splits)

lemma cleanup_frames:
  "frames (cleanup w) =
     (case animationFrameIdRef (controller w) of
        None \<Rightarrow> frames w | Some h \<Rightarrow> if h = 0 then frames w else removeAll h (frames w))"
  "timeouts (cleanup w) = timeouts w"
  "lastHandle (cleanup w) = lastHandle w"
  by (simp_all add: cleanup_def Let_def split: option.splits)

text \<open>
  C9. Every call of the cleanup is guarded by a test of the ref it uses, so the cleanup
  has no failing step. A second cleanup right after the first closes no detector and stops
  no track, and leaves the refs, the pending frames and the pending timeouts as the first
  left them (it cancels the stored frame handle again, which removes nothing). One cleanup
  closes the detector once if the ref holds one and stops each track of the stream once if
  the video element has one. With no frame handle stored, no frame is cancelled; with no
  handle, no detector and no stream, the cleanup changes nothing.
\<close>

theorem C9_teardown:
  "releases (calls (cleanup (cleanup w))) = releases (calls (cleanup w)) \<and>
   controller (cleanup (cleanup w)) = controller (cleanup w) \<and>
   frames (cleanup (cleanup w)) = frames (cleanup w) \<and>
   timeouts (cleanup (cleanup w)) = timeouts (cleanup w) \<and>
   releases (calls (cleanup w)) =
     releases (calls w)
     @ (case handLandmarkerRef (controller w) of None \<Rightarrow> [] | Some landmarker \<Rightarrow> [Close landmarker])
     @ (case videoRef (controller w) of
          None \<Rightarrow> []
        | Some v \<Rightarrow> (case srcObject v of None \<Rightarrow> [] | Some stream \<Rightarrow> map TrackStop stream)) \<and>
   (animationFrameIdRef (controller w) = None \<longrightarrow>
      frames (cleanup w) = frames w \<and> cancels (calls (cleanup w)) = cancels (calls w)) \<and>
   (animationFrameIdRef (controller w) = None \<and> handLandmarkerRef (controller w) = None \<and>
    (videoRef (controller w) = None \<or>
     (\<exists>v. videoRef (controller w) = Some v \<and> srcObject v = None)) \<longrightarrow>
      cleanup w = w)"
proof -
  have rel: "releases (calls (cleanup w)) =
     releases (calls w)
     @ (case handLandmarkerRef (controller w) of None \<Rightarrow> [] | Some landmarker \<Rightarrow> [Close landmarker])
     @ (case videoRef (controller w) of
          None \<Rightarrow> []
        | Some v \<Rightarrow> (case srcObject v of None \<Rightarrow> [] | Some stream \<Rightarrow> map TrackStop stream))" for w
    by (simp add: cleanup_calls releases_append releases_TrackStop split: option.splits)
       (simp add: releases_def)
  have twice: "releases (calls (cleanup (cleanup w))) = releases (calls (cleanup w))"
    unfolding rel[of "cleanup w"] by (simp add: cleanup_controller split: option.splits)
  have ctl: "controller (cleanup (cleanup w)) = controller (cleanup w)"
    unfolding cleanup_controller[of "cleanup w"]
    by (cases "videoRef (controller w)") (simp_all add: cleanup_controller)
  have frs: "frames (cleanup (cleanup w)) = frames (cleanup w)"
    unfolding cleanup_frames(1)[of "cleanup w"]
    by (simp add: cleanup_controller cleanup_frames(1) split: option.splits)
  have tms: "timeouts (cleanup (cleanup w)) = timeouts (cleanup w)"
    by (simp add: cleanup_frames(2))
  have never: "animationFrameIdRef (controller w) = None \<longrightarrow>
      frames (cleanup w) = frames w \<and> cancels (calls (cleanup w)) = cancels (calls w)"
    by (simp add: cleanup_frames(1) cleanup_calls cancels_append cancels_TrackStop split: option.splits)
       (simp add: cancels_def)
  have unheld: "animationFrameIdRef (controller w) = None \<and> handLandmarkerRef (controller w) = None \<and>
    (videoRef (controller w) = None \<or>
     (\<exists>v. videoRef (controller w) = Some v \<and> srcObject v = None)) \<longrightarrow>
      cleanup w = w"
    by (auto simp: cleanup_def)
  show ?thesis
    by (intro conjI twice ctl frs tms rel never unheld)
qed

theorem C9_teardown_witness:
  "animationFrameIdRef (controller fresh) = None \<and> handLandmarkerRef (controller fresh) = None \<and>
   videoRef (controller fresh) = Some \<lparr>readyState = 0, srcObject = None\<rparr> \<and>
   cleanup fresh = fresh \<and>
   calls (cleanup waiting) = [CancelAnimationFrame 1, Close 7, TrackStop 0] \<and>
   releases (calls (cleanup (cleanup waiting))) = [Close 7, TrackStop 0]"
proof -
  have f: "animationFrameIdRef (controller fresh) = None" "handLandmarkerRef (controller fresh) = None"
    "videoRef (controller fresh) = Some \<lparr>readyState = 0, srcObject = None\<rparr>"
    by (simp_all add: fresh_def mounted_def)
  have c: "calls (cleanup waiting) = [CancelAnimationFrame 1, Close 7, TrackStop 0]"
    by (simp add: cleanup_calls waiting_def running_def mounted_def)
  have r: "releases [CancelAnimationFrame 1, Close 7, TrackStop 0] = [Close 7, TrackStop 0]"
    by (simp add: releases_def)
  show ?thesis
    using C9_teardown[of fresh] C9_teardown[of waiting] f c r
    by simp
qed

text \<open>
  C10. The try block of the second GestureController, run with the closure's currentMode
  equal to what the first reads from modeRef, returns the same refs and makes the same
  calls in the same order as the try block of the first, for every detection outcome,
  every pair of counter values and either mode.
\<close>

theorem C10_variants_agree:
  "tryBlock2 (modeRef c) onHandPosition c det = tryBlock onHandPosition c det"
proof (cases det)
  case Rejected
  then show ?thesis by (simp add: tryBlock2_def tryBlock_def catchBlock_def)
next
  case (Resolved results)
  show ?thesis
  proof (cases results)
    case None
    with Resolved show ?thesis by (simp add: tryBlock2_def tryBlock_def noHand_def)
  next
    case (Some hands)
    show ?thesis
    proof (cases hands)
      case Nil
      with Resolved Some show ?thesis by (simp add: tryBlock2_def tryBlock_def noHand_def)
    next
      case (Cons landmarks others)
      have "tryBlock2 (modeRef c) onHandPosition c (Resolved (Some (landmarks # others))) =
            handPresent onHandPosition c landmarks others"
        by (simp add: tryBlock2_def handPresent_def centroid_def fingersOpen_def countFrames_def
              catchBlock_def CONFIDENCE_THRESHOLD_def CONFIDENCE_THRESHOLD2_def Let_def)
      with Resolved Some Cons show ?thesis by (simp add: tryBlock_def)
    qed
  qed
qed

end
